theory Spec2Isabelle
  imports Complex_Main
begin

section \<open>Data model (src/types/index.ts)\<close>

text \<open>
  The inpainting engine of \<^verbatim>\<open>src/lib/watermark-remover.ts\<close>. Coordinates, sizes and
  the margin are integers (the pixel grid); colour arithmetic is done over the reals,
  standing for the doubles of the source. A pixel buffer (\<^verbatim>\<open>Uint8ClampedArray\<close>) is a
  list of bytes; a write past its end changes nothing, as in the source.
\<close>

record Selection =
  sel_x :: int
  sel_y :: int
  sel_width :: int
  sel_height :: int

record TextureSample =
  ts_r :: nat
  ts_g :: nat
  ts_b :: nat

record ProcessingOptions =
  opt_autoDetect :: bool
  opt_passes :: int
  opt_margin :: int
  opt_grainStrength :: real
  opt_textureInjectionProbability :: real

text \<open>\<^verbatim>\<open>Partial<ProcessingOptions>\<close>: every field may be absent.\<close>

record PartialOptions =
  po_autoDetect :: "bool option"
  po_passes :: "int option"
  po_margin :: "int option"
  po_grainStrength :: "real option"
  po_textureInjectionProbability :: "real option"

record ImageData =
  img_data :: "nat list"
  img_width :: int
  img_height :: int

datatype error = TypeError | RangeError | IndexSizeError

definition DEFAULT_OPTIONS :: ProcessingOptions where
  "DEFAULT_OPTIONS =
     \<lparr>opt_autoDetect = True, opt_passes = 8, opt_margin = 50, opt_grainStrength = 2,
      opt_textureInjectionProbability = 2 / 10\<rparr>"

text \<open>\<^verbatim>\<open>{ ...DEFAULT_OPTIONS, ...options }\<close>\<close>

definition merge_options :: "PartialOptions \<Rightarrow> ProcessingOptions" where
  "merge_options options =
     \<lparr>opt_autoDetect = (case po_autoDetect options of None \<Rightarrow> opt_autoDetect DEFAULT_OPTIONS | Some v \<Rightarrow> v),
      opt_passes = (case po_passes options of None \<Rightarrow> opt_passes DEFAULT_OPTIONS | Some v \<Rightarrow> v),
      opt_margin = (case po_margin options of None \<Rightarrow> opt_margin DEFAULT_OPTIONS | Some v \<Rightarrow> v),
      opt_grainStrength =
        (case po_grainStrength options of None \<Rightarrow> opt_grainStrength DEFAULT_OPTIONS | Some v \<Rightarrow> v),
      opt_textureInjectionProbability =
        (case po_textureInjectionProbability options of
           None \<Rightarrow> opt_textureInjectionProbability DEFAULT_OPTIONS | Some v \<Rightarrow> v)\<rparr>"

text \<open>
  An \<^verbatim>\<open>ImageData\<close> of the platform has positive dimensions, four bytes per pixel and
  channel values in 0..255.
\<close>

definition wf_image :: "ImageData \<Rightarrow> bool" where
  "wf_image imageData \<longleftrightarrow>
     0 < img_width imageData \<and> 0 < img_height imageData \<and>
     int (length (img_data imageData)) = 4 * img_width imageData * img_height imageData \<and>
     list_all (\<lambda>b. b \<le> 255) (img_data imageData)"

text \<open>\<^verbatim>\<open>Math.random()\<close> is a stream of draws, each in [0, 1); a counter says which draw is next.\<close>

definition rnd_ok :: "(nat \<Rightarrow> real) \<Rightarrow> bool" where
  "rnd_ok rnd \<longleftrightarrow> (\<forall>n. 0 \<le> rnd n \<and> rnd n < 1)"

section \<open>Numeric helpers of the platform\<close>

text \<open>\<^verbatim>\<open>Math.round\<close>: the nearest integer, a half rounding up.\<close>

definition math_round :: "real \<Rightarrow> int" where
  "math_round v = \<lfloor>v + 1 / 2\<rfloor>"

text \<open>Storing a number into a \<^verbatim>\<open>Uint8ClampedArray\<close> (ToUint8Clamp): clamp, then round half to even.\<close>

definition toUint8Clamp :: "real \<Rightarrow> nat" where
  "toUint8Clamp v =
     (if v \<le> 0 then 0
      else if v \<ge> 255 then 255
      else let f = \<lfloor>v\<rfloor> in
        if real_of_int f + 1 / 2 < v then nat (f + 1)
        else if v < real_of_int f + 1 / 2 then nat f
        else if even f then nat f
        else nat (f + 1))"

text \<open>The byte offset of pixel (x, y): \<^verbatim>\<open>(y * width + x) * 4\<close>.\<close>

definition pix_idx :: "int \<Rightarrow> int \<Rightarrow> int \<Rightarrow> nat" where
  "pix_idx width x y = nat ((y * width + x) * 4)"

text \<open>The three stores \<^verbatim>\<open>buf[idx] = r; buf[idx + 1] = g; buf[idx + 2] = b\<close>.\<close>

definition write_rgb :: "nat list \<Rightarrow> nat \<Rightarrow> nat \<Rightarrow> nat \<Rightarrow> nat \<Rightarrow> nat list" where
  "write_rgb buf idx r g b = buf[idx := r, idx + 1 := g, idx + 2 := b]"

text \<open>A loop whose body may throw: the first error ends it.\<close>

fun for_each :: "'a list \<Rightarrow> ('a \<Rightarrow> 's \<Rightarrow> error + 's) \<Rightarrow> 's \<Rightarrow> error + 's" where
  "for_each [] f s = Inr s"
| "for_each (a # as) f s = (case f a s of Inl e \<Rightarrow> Inl e | Inr s' \<Rightarrow> for_each as f s')"

section \<open>buildTextureBank, isInsideSelection, autoDetectWatermark\<close>

definition bank_push :: "ImageData \<Rightarrow> Selection \<Rightarrow> int \<Rightarrow> int \<Rightarrow> TextureSample list \<Rightarrow> TextureSample list" where
  "bank_push imageData selection y x bank =
     (if x < sel_x selection \<or> x \<ge> sel_x selection + sel_width selection \<or>
         y < sel_y selection \<or> y \<ge> sel_y selection + sel_height selection
      then
        let idx = pix_idx (img_width imageData) x y in
        bank @ [\<lparr>ts_r = img_data imageData ! idx, ts_g = img_data imageData ! (idx + 1),
                 ts_b = img_data imageData ! (idx + 2)\<rparr>]
      else bank)"

definition buildTextureBank :: "ImageData \<Rightarrow> Selection \<Rightarrow> int \<Rightarrow> TextureSample list" where
  "buildTextureBank imageData selection margin =
     (let minX = max 0 (sel_x selection - margin);
          maxX = min (img_width imageData) (sel_x selection + sel_width selection + margin);
          minY = max 0 (sel_y selection - margin);
          maxY = min (img_height imageData) (sel_y selection + sel_height selection + margin)
      in fold (\<lambda>y. fold (\<lambda>x. bank_push imageData selection y x) [minX..maxX - 1])
           [minY..maxY - 1] [])"

definition isInsideSelection :: "int \<Rightarrow> int \<Rightarrow> Selection \<Rightarrow> bool" where
  "isInsideSelection x y selection \<longleftrightarrow>
     x \<ge> sel_x selection \<and> x < sel_x selection + sel_width selection \<and>
     y \<ge> sel_y selection \<and> y < sel_y selection + sel_height selection"

definition autoDetectWatermark :: "int \<Rightarrow> int \<Rightarrow> Selection" where
  "autoDetectWatermark width height =
     \<lparr>sel_x = max 0 (width - 200), sel_y = max 0 (height - 80),
      sel_width = min 180 width, sel_height = min 60 height\<rparr>"

section \<open>inpaintWatermark\<close>

subsection \<open>Clamping the selection\<close>

definition clampSelection :: "int \<Rightarrow> int \<Rightarrow> Selection \<Rightarrow> Selection" where
  "clampSelection width height selection =
     \<lparr>sel_x = max 0 (min (sel_x selection) (width - 1)),
      sel_y = max 0 (min (sel_y selection) (height - 1)),
      sel_width = min (sel_width selection) (width - sel_x selection),
      sel_height = min (sel_height selection) (height - sel_y selection)\<rparr>"

subsection \<open>Average colour and step 1, the pre-fill\<close>

definition bank_sum :: "TextureSample list \<Rightarrow> real \<times> real \<times> real" where
  "bank_sum textureBank =
     fold (\<lambda>sample (avgR, avgG, avgB).
             (avgR + real (ts_r sample), avgG + real (ts_g sample), avgB + real (ts_b sample)))
       textureBank (0, 0, 0)"

definition bank_average :: "TextureSample list \<Rightarrow> int \<times> int \<times> int" where
  "bank_average textureBank =
     (case bank_sum textureBank of (avgR, avgG, avgB) \<Rightarrow>
        (math_round (avgR / real (length textureBank)),
         math_round (avgG / real (length textureBank)),
         math_round (avgB / real (length textureBank))))"

definition prefill_pixel :: "int \<Rightarrow> int \<Rightarrow> int \<times> int \<times> int \<Rightarrow> int \<Rightarrow> int \<Rightarrow> nat list \<Rightarrow> nat list" where
  "prefill_pixel width height avg y x resultData =
     (case avg of (avgR, avgG, avgB) \<Rightarrow>
        if x \<ge> 0 \<and> x < width \<and> y \<ge> 0 \<and> y < height then
          write_rgb resultData (pix_idx width x y)
            (toUint8Clamp (real_of_int avgR)) (toUint8Clamp (real_of_int avgG))
            (toUint8Clamp (real_of_int avgB))
        else resultData)"

definition prefill :: "int \<Rightarrow> int \<Rightarrow> Selection \<Rightarrow> int \<times> int \<times> int \<Rightarrow> nat list \<Rightarrow> nat list" where
  "prefill width height sel avg resultData =
     fold (\<lambda>y. fold (\<lambda>x. prefill_pixel width height avg y x)
                  [sel_x sel..sel_x sel + sel_width sel - 1])
       [sel_y sel..sel_y sel + sel_height sel - 1] resultData"

subsection \<open>Step 2: distance map and the layered fill\<close>

text \<open>
  \<^verbatim>\<open>distMap\<close> is a zero-initialised \<^verbatim>\<open>Float32Array\<close>, here a function from the index
  to the (integral) distance; \<^verbatim>\<open>maxDist\<close> is accumulated in the same loops.
\<close>

definition edge_dist :: "Selection \<Rightarrow> int \<Rightarrow> int \<Rightarrow> int" where
  "edge_dist sel lx ly =
     (let distToLeft = lx; distToRight = sel_width sel - 1 - lx;
          distToTop = ly; distToBottom = sel_height sel - 1 - ly
      in min (min (min distToLeft distToRight) distToTop) distToBottom)"

definition distMap_cell :: "Selection \<Rightarrow> int \<Rightarrow> int \<Rightarrow> (int \<Rightarrow> int) \<times> int \<Rightarrow> (int \<Rightarrow> int) \<times> int" where
  "distMap_cell sel ly lx st =
     (case st of (distMap, maxDist) \<Rightarrow>
        let dist = edge_dist sel lx ly
        in (distMap(ly * sel_width sel + lx := dist), max maxDist dist))"

definition buildDistMap :: "Selection \<Rightarrow> (int \<Rightarrow> int) \<times> int" where
  "buildDistMap sel =
     fold (\<lambda>ly. fold (\<lambda>lx. distMap_cell sel ly lx) [0..sel_width sel - 1])
       [0..sel_height sel - 1] (\<lambda>_. 0, 0)"

text \<open>
  What the fill does with the neighbour at offset (dx, dy) of pixel (x, y): skip it, or
  read it from the original snapshot, or from the buffer being written.
\<close>

datatype sample_source = Skipped | FromOriginal | FromResult

definition fill_source ::
  "int \<Rightarrow> int \<Rightarrow> Selection \<Rightarrow> (int \<Rightarrow> int) \<Rightarrow> int \<Rightarrow> int \<Rightarrow> int \<Rightarrow> int \<Rightarrow> int \<Rightarrow> int \<Rightarrow> sample_source" where
  "fill_source width height sel distMap layer sampleRadius x y dy dx =
     (let sx = x + dx; sy = y + dy in
      if sx < 0 \<or> sx \<ge> width \<or> sy < 0 \<or> sy \<ge> height then Skipped
      else
        let d = sqrt (real_of_int (dx * dx + dy * dy)) in
        if d > real_of_int sampleRadius \<or> d = 0 then Skipped
        else
          let isOutside = (\<not> isInsideSelection sx sy sel);
              sampleLx = sx - sel_x sel;
              sampleLy = sy - sel_y sel;
              sampleDist = (if isOutside then - 1 else distMap (sampleLy * sel_width sel + sampleLx))
          in if \<not> isOutside \<and> sampleDist \<ge> layer then Skipped
             else if isOutside then FromOriginal else FromResult)"

type_synonym fill_acc = "real \<times> real \<times> real \<times> real"

definition fill_sample ::
  "int \<Rightarrow> int \<Rightarrow> Selection \<Rightarrow> (int \<Rightarrow> int) \<Rightarrow> int \<Rightarrow> int \<Rightarrow> nat list \<Rightarrow> nat list \<Rightarrow>
   int \<Rightarrow> int \<Rightarrow> int \<Rightarrow> int \<Rightarrow> fill_acc \<Rightarrow> fill_acc" where
  "fill_sample width height sel distMap layer sampleRadius originalData resultData x y dy dx acc =
     (case acc of (sumR, sumG, sumB, totalWeight) \<Rightarrow>
        (case fill_source width height sel distMap layer sampleRadius x y dy dx of
           Skipped \<Rightarrow> acc
         | src \<Rightarrow>
             let d = sqrt (real_of_int (dx * dx + dy * dy));
                 weight = 1 / (1 + d * (3 / 10));
                 idx = pix_idx width (x + dx) (y + dy);
                 sourceData = (if src = FromOriginal then originalData else resultData)
             in (sumR + real (sourceData ! idx) * weight,
                 sumG + real (sourceData ! (idx + 1)) * weight,
                 sumB + real (sourceData ! (idx + 2)) * weight,
                 totalWeight + weight)))"

text \<open>
  One random texture sample: \<^verbatim>\<open>textureBank[Math.floor(Math.random() * textureBank.length)]\<close>;
  reading a field of a missing element throws.
\<close>

definition random_sample :: "TextureSample list \<Rightarrow> (nat \<Rightarrow> real) \<Rightarrow> nat \<Rightarrow> fill_acc \<times> nat \<Rightarrow> error + (fill_acc \<times> nat)" where
  "random_sample textureBank rnd i st =
     (case st of ((sumR, sumG, sumB, totalWeight), n) \<Rightarrow>
        let k = \<lfloor>rnd n * real (length textureBank)\<rfloor> in
        if 0 \<le> k \<and> k < int (length textureBank) then
          let sample = textureBank ! nat k; weight = 1 / 10
          in Inr ((sumR + real (ts_r sample) * weight, sumG + real (ts_g sample) * weight,
                   sumB + real (ts_b sample) * weight, totalWeight + weight), Suc n)
        else Inl TypeError)"

text \<open>
  One pixel of one layer. The distances are integral, so \<^verbatim>\<open>Math.floor(dist) !== layer\<close> is
  \<open>dist \<noteq> layer\<close>. The weights, sums and quotients are exact reals; the doubles of
  the source can differ from them in the last bit, so a written value may differ by one
  where the exact quotient lies on a half.
\<close>

definition fill_pixel ::
  "int \<Rightarrow> int \<Rightarrow> Selection \<Rightarrow> int \<Rightarrow> (int \<Rightarrow> int) \<Rightarrow> nat list \<Rightarrow> TextureSample list \<Rightarrow> (nat \<Rightarrow> real) \<Rightarrow>
   int \<Rightarrow> int \<Rightarrow> int \<Rightarrow> nat list \<times> nat \<Rightarrow> error + (nat list \<times> nat)" where
  "fill_pixel width height sel margin distMap originalData textureBank rnd layer ly lx st =
     (case st of (resultData, n) \<Rightarrow>
        let dist = distMap (ly * sel_width sel + lx) in
        if dist \<noteq> layer then Inr (resultData, n)
        else
          let x = sel_x sel + lx; y = sel_y sel + ly in
          if x < 0 \<or> x \<ge> width \<or> y < 0 \<or> y \<ge> height then Inr (resultData, n)
          else
            let sampleRadius = min 10 margin;
                acc = fold (\<lambda>dy. fold (\<lambda>dx. fill_sample width height sel distMap layer sampleRadius
                                              originalData resultData x y dy dx)
                                   [- sampleRadius..sampleRadius])
                        [- sampleRadius..sampleRadius] (0, 0, 0, 0)
            in case for_each [0, 1] (random_sample textureBank rnd) (acc, n) of
                 Inl e \<Rightarrow> Inl e
               | Inr ((sumR, sumG, sumB, totalWeight), n') \<Rightarrow>
                   if totalWeight > 0 then
                     Inr (write_rgb resultData (pix_idx width x y)
                            (toUint8Clamp (real_of_int (math_round (sumR / totalWeight))))
                            (toUint8Clamp (real_of_int (math_round (sumG / totalWeight))))
                            (toUint8Clamp (real_of_int (math_round (sumB / totalWeight)))), n')
                   else Inr (resultData, n'))"

definition fill_layer ::
  "int \<Rightarrow> int \<Rightarrow> Selection \<Rightarrow> int \<Rightarrow> (int \<Rightarrow> int) \<Rightarrow> nat list \<Rightarrow> TextureSample list \<Rightarrow> (nat \<Rightarrow> real) \<Rightarrow>
   int \<Rightarrow> nat list \<times> nat \<Rightarrow> error + (nat list \<times> nat)" where
  "fill_layer width height sel margin distMap originalData textureBank rnd layer st =
     for_each [0..sel_height sel - 1]
       (\<lambda>ly. for_each [0..sel_width sel - 1]
                (\<lambda>lx. fill_pixel width height sel margin distMap originalData textureBank rnd layer ly lx))
       st"

text \<open>The layer loop, with the progress it reports after each layer (when a sink is given).\<close>

definition fill_layer_step ::
  "int \<Rightarrow> int \<Rightarrow> Selection \<Rightarrow> int \<Rightarrow> (int \<Rightarrow> int) \<Rightarrow> int \<Rightarrow> nat list \<Rightarrow> TextureSample list \<Rightarrow> (nat \<Rightarrow> real) \<Rightarrow>
   int \<Rightarrow> (nat list \<times> nat) \<times> real list \<Rightarrow> error + ((nat list \<times> nat) \<times> real list)" where
  "fill_layer_step width height sel margin distMap maxDist originalData textureBank rnd layer st =
     (case st of (buf, progress) \<Rightarrow>
        (case fill_layer width height sel margin distMap originalData textureBank rnd layer buf of
           Inl e \<Rightarrow> Inl e
         | Inr buf' \<Rightarrow>
             Inr (buf',
                  if maxDist > 0
                  then progress @ [20 + (real_of_int layer / real_of_int maxDist) * 50]
                  else progress)))"

definition fill_stage ::
  "int \<Rightarrow> int \<Rightarrow> Selection \<Rightarrow> int \<Rightarrow> (int \<Rightarrow> int) \<Rightarrow> int \<Rightarrow> nat list \<Rightarrow> TextureSample list \<Rightarrow> (nat \<Rightarrow> real) \<Rightarrow>
   (nat list \<times> nat) \<times> real list \<Rightarrow> error + ((nat list \<times> nat) \<times> real list)" where
  "fill_stage width height sel margin distMap maxDist originalData textureBank rnd st =
     for_each [0..maxDist]
       (fill_layer_step width height sel margin distMap maxDist originalData textureBank rnd) st"

subsection \<open>Step 3: smoothing passes\<close>

definition smooth_sample :: "int \<Rightarrow> int \<Rightarrow> nat list \<Rightarrow> int \<Rightarrow> int \<Rightarrow> int \<Rightarrow> int \<Rightarrow> fill_acc \<Rightarrow> fill_acc" where
  "smooth_sample width height tempData x y dy dx acc =
     (case acc of (sumR, sumG, sumB, count) \<Rightarrow>
        let sx = x + dx; sy = y + dy in
        if sx < 0 \<or> sx \<ge> width \<or> sy < 0 \<or> sy \<ge> height then acc
        else
          let idx = pix_idx width sx sy
          in (sumR + real (tempData ! idx), sumG + real (tempData ! (idx + 1)),
              sumB + real (tempData ! (idx + 2)), count + 1))"

definition smooth_pixel :: "int \<Rightarrow> int \<Rightarrow> nat list \<Rightarrow> int \<Rightarrow> int \<Rightarrow> nat list \<Rightarrow> nat list" where
  "smooth_pixel width height tempData y x resultData =
     (if x < 0 \<or> x \<ge> width \<or> y < 0 \<or> y \<ge> height then resultData
      else
        let radius = 2 :: int in
        case fold (\<lambda>dy. fold (\<lambda>dx. smooth_sample width height tempData x y dy dx) [- radius..radius])
               [- radius..radius] (0, 0, 0, 0) of
          (sumR, sumG, sumB, count) \<Rightarrow>
            if count > 0 then
              write_rgb resultData (pix_idx width x y)
                (toUint8Clamp (real_of_int (math_round (sumR / count))))
                (toUint8Clamp (real_of_int (math_round (sumG / count))))
                (toUint8Clamp (real_of_int (math_round (sumB / count))))
            else resultData)"

definition smooth_pass :: "int \<Rightarrow> int \<Rightarrow> Selection \<Rightarrow> int \<Rightarrow> int \<Rightarrow> nat list \<times> real list \<Rightarrow> nat list \<times> real list" where
  "smooth_pass width height sel passes pass st =
     (case st of (resultData, progress) \<Rightarrow>
        let tempData = resultData
        in (fold (\<lambda>y. fold (\<lambda>x. smooth_pixel width height tempData y x)
                         [sel_x sel..sel_x sel + sel_width sel - 1])
              [sel_y sel..sel_y sel + sel_height sel - 1] resultData,
            progress @ [75 + (real_of_int (pass + 1) / real_of_int passes) * 15]))"

definition smooth_stage :: "int \<Rightarrow> int \<Rightarrow> Selection \<Rightarrow> int \<Rightarrow> nat list \<times> real list \<Rightarrow> nat list \<times> real list" where
  "smooth_stage width height sel passes st =
     fold (smooth_pass width height sel passes) [0..passes - 1] st"

subsection \<open>Step 4: feathering\<close>

text \<open>The search state: the nearest colour found so far and \<^verbatim>\<open>minDist\<close> (\<open>None\<close> is \<^verbatim>\<open>Infinity\<close>).\<close>

type_synonym nearest = "nat \<times> nat \<times> nat \<times> real option"

definition feather_probe :: "int \<Rightarrow> int \<Rightarrow> Selection \<Rightarrow> nat list \<Rightarrow> int \<Rightarrow> int \<Rightarrow> int \<Rightarrow> int \<Rightarrow> nearest \<Rightarrow> nearest" where
  "feather_probe width height sel originalData x y dy dx st =
     (case st of (nearestR, nearestG, nearestB, minDist) \<Rightarrow>
        let sx = x + dx; sy = y + dy in
        if sx < 0 \<or> sx \<ge> width \<or> sy < 0 \<or> sy \<ge> height then st
        else if isInsideSelection sx sy sel then st
        else
          let d = sqrt (real_of_int (dx * dx + dy * dy)) in
          if (case minDist of None \<Rightarrow> True | Some m \<Rightarrow> d < m) then
            let sIdx = pix_idx width sx sy
            in (originalData ! sIdx, originalData ! (sIdx + 1), originalData ! (sIdx + 2), Some d)
          else st)"

definition feather_nearest :: "int \<Rightarrow> int \<Rightarrow> Selection \<Rightarrow> nat list \<Rightarrow> int \<Rightarrow> int \<Rightarrow> int \<Rightarrow> nearest" where
  "feather_nearest width height sel originalData featherWidth x y =
     (let idx = pix_idx width x y
      in fold (\<lambda>dy. fold (\<lambda>dx. feather_probe width height sel originalData x y dy dx)
                       [- featherWidth..featherWidth])
           [- featherWidth..featherWidth]
           (originalData ! idx, originalData ! (idx + 1), originalData ! (idx + 2), None))"

definition feather_blend :: "nat \<Rightarrow> real \<Rightarrow> nat \<Rightarrow> nat" where
  "feather_blend cur blend near =
     toUint8Clamp (real_of_int (math_round (real cur * blend + real near * (1 - blend))))"

text \<open>
  The three stores of a pixel each read only the slot they write, so they are written as
  one \<open>write_rgb\<close> of values computed from the buffer before the stores.
\<close>

definition feather_pixel :: "int \<Rightarrow> int \<Rightarrow> Selection \<Rightarrow> (int \<Rightarrow> int) \<Rightarrow> nat list \<Rightarrow> int \<Rightarrow> int \<Rightarrow> nat list \<Rightarrow> nat list" where
  "feather_pixel width height sel distMap originalData y x resultData =
     (if x < 0 \<or> x \<ge> width \<or> y < 0 \<or> y \<ge> height then resultData
      else
        let featherWidth = 4 :: int;
            lx = x - sel_x sel;
            ly = y - sel_y sel;
            distToEdge = distMap (ly * sel_width sel + lx)
        in if distToEdge < featherWidth then
             let blend = real_of_int distToEdge / real_of_int featherWidth;
                 idx = pix_idx width x y
             in case feather_nearest width height sel originalData featherWidth x y of
                  (nearestR, nearestG, nearestB, minDist) \<Rightarrow>
                    write_rgb resultData idx
                      (feather_blend (resultData ! idx) blend nearestR)
                      (feather_blend (resultData ! (idx + 1)) blend nearestG)
                      (feather_blend (resultData ! (idx + 2)) blend nearestB)
           else resultData)"

definition feather_stage :: "int \<Rightarrow> int \<Rightarrow> Selection \<Rightarrow> (int \<Rightarrow> int) \<Rightarrow> nat list \<Rightarrow> nat list \<Rightarrow> nat list" where
  "feather_stage width height sel distMap originalData resultData =
     fold (\<lambda>y. fold (\<lambda>x. feather_pixel width height sel distMap originalData y x)
                  [sel_x sel..sel_x sel + sel_width sel - 1])
       [sel_y sel..sel_y sel + sel_height sel - 1] resultData"

subsection \<open>Step 5: grain\<close>

text \<open>One noise value per pixel, \<^verbatim>\<open>(Math.random() - 0.5) * grainStrength * 2\<close>, for its three channels.\<close>

definition grain_channel :: "nat \<Rightarrow> real \<Rightarrow> nat" where
  "grain_channel v noise = toUint8Clamp (max 0 (min 255 (real v + noise)))"

definition grain_pixel :: "int \<Rightarrow> int \<Rightarrow> real \<Rightarrow> (nat \<Rightarrow> real) \<Rightarrow> int \<Rightarrow> int \<Rightarrow> nat list \<times> nat \<Rightarrow> nat list \<times> nat" where
  "grain_pixel width height grainStrength rnd y x st =
     (case st of (resultData, n) \<Rightarrow>
        if x < 0 \<or> x \<ge> width \<or> y < 0 \<or> y \<ge> height then st
        else
          let idx = pix_idx width x y;
              noise = (rnd n - 1 / 2) * grainStrength * 2
          in (write_rgb resultData idx
                (grain_channel (resultData ! idx) noise)
                (grain_channel (resultData ! (idx + 1)) noise)
                (grain_channel (resultData ! (idx + 2)) noise), Suc n))"

definition grain_stage :: "int \<Rightarrow> int \<Rightarrow> Selection \<Rightarrow> real \<Rightarrow> (nat \<Rightarrow> real) \<Rightarrow> nat list \<times> nat \<Rightarrow> nat list \<times> nat" where
  "grain_stage width height sel grainStrength rnd st =
     fold (\<lambda>y. fold (\<lambda>x. grain_pixel width height grainStrength rnd y x)
                  [sel_x sel..sel_x sel + sel_width sel - 1])
       [sel_y sel..sel_y sel + sel_height sel - 1] st"

subsection \<open>The pipeline\<close>

text \<open>
  \<^verbatim>\<open>new ImageData(data, width, height)\<close> throws unless the buffer holds exactly
  width * height pixels of four bytes, and at least one.
\<close>

definition new_ImageData :: "nat list \<Rightarrow> int \<Rightarrow> int \<Rightarrow> error + ImageData" where
  "new_ImageData buf width height =
     (if 0 < width \<and> 0 < height \<and> int (length buf) = 4 * width * height
      then Inr \<lparr>img_data = buf, img_width = width, img_height = height\<rparr>
      else Inl IndexSizeError)"

text \<open>
  The result is the returned image together with the progress values a sink would have
  received, in order. The early returns hand back \<^verbatim>\<open>imageData\<close> itself.
\<close>

definition inpaintWatermark ::
  "ImageData \<Rightarrow> Selection \<Rightarrow> PartialOptions \<Rightarrow> (nat \<Rightarrow> real) \<Rightarrow> error + (ImageData \<times> real list)" where
  "inpaintWatermark imageData selection options rnd =
     (let opts = merge_options options;
          width = img_width imageData;
          height = img_height imageData;
          originalData = img_data imageData;
          resultData = img_data imageData;
          margin = opt_margin opts;
          passes = opt_passes opts;
          grainStrength = opt_grainStrength opts;
          sel = clampSelection width height selection
      in if sel_width sel \<le> 0 \<or> sel_height sel \<le> 0 then Inr (imageData, [])
         else
           let textureBank = buildTextureBank imageData sel margin in
           if length textureBank = 0 then Inr (imageData, [])
           else
             let avg = bank_average textureBank;
                 resultData = prefill width height sel avg resultData;
                 progress = [20]
             in case buildDistMap sel of (distMap, maxDist) \<Rightarrow>
                  (case fill_stage width height sel margin distMap maxDist originalData textureBank rnd
                          ((resultData, 0), progress) of
                     Inl e \<Rightarrow> Inl e
                   | Inr ((resultData, n), progress) \<Rightarrow>
                       (case smooth_stage width height sel passes (resultData, progress @ [75]) of
                          (resultData, progress) \<Rightarrow>
                            let progress = progress @ [92];
                                resultData = feather_stage width height sel distMap originalData resultData
                            in case grain_stage width height sel grainStrength rnd (resultData, n) of
                                 (resultData, n) \<Rightarrow>
                                   (case new_ImageData resultData width height of
                                      Inl e \<Rightarrow> Inl e
                                    | Inr out \<Rightarrow> Inr (out, progress @ [100])))))"

section \<open>Vocabulary of the properties\<close>

text \<open>The byte offsets of the colour channels of the pixels of the image that satisfy \<open>Q\<close>.\<close>

definition touch :: "int \<Rightarrow> int \<Rightarrow> (int \<Rightarrow> int \<Rightarrow> bool) \<Rightarrow> nat set" where
  "touch width height Q =
     {i. \<exists>x y c. 0 \<le> x \<and> x < width \<and> 0 \<le> y \<and> y < height \<and> Q x y \<and> c < 3 \<and>
                 i = pix_idx width x y + c}"

text \<open>Two buffers of one length that agree at every offset outside \<open>W\<close>.\<close>

definition same_outside :: "nat set \<Rightarrow> nat list \<Rightarrow> nat list \<Rightarrow> bool" where
  "same_outside W a b \<longleftrightarrow> length a = length b \<and> (\<forall>i. i \<notin> W \<longrightarrow> a ! i = b ! i)"

subsection \<open>The texture bank, in the words of its description\<close>

text \<open>The sample taken at a pixel.\<close>

definition sample_at :: "ImageData \<Rightarrow> int \<times> int \<Rightarrow> TextureSample" where
  "sample_at imageData p =
     (case p of (x, y) \<Rightarrow>
        let idx = pix_idx (img_width imageData) x y
        in \<lparr>ts_r = img_data imageData ! idx, ts_g = img_data imageData ! (idx + 1),
            ts_b = img_data imageData ! (idx + 2)\<rparr>)"

text \<open>
  The scanned box: the selection grown by the margin on all sides and clipped to the
  image, row by row, each row from left to right.
\<close>

definition texture_scan :: "ImageData \<Rightarrow> Selection \<Rightarrow> int \<Rightarrow> (int \<times> int) list" where
  "texture_scan imageData selection margin =
     concat (map (\<lambda>y. map (\<lambda>x. (x, y))
                          [max 0 (sel_x selection - margin)..
                           min (img_width imageData) (sel_x selection + sel_width selection + margin) - 1])
               [max 0 (sel_y selection - margin)..
                min (img_height imageData) (sel_y selection + sel_height selection + margin) - 1])"

definition outside_sel :: "Selection \<Rightarrow> int \<times> int \<Rightarrow> bool" where
  "outside_sel selection p = (case p of (x, y) \<Rightarrow> \<not> isInsideSelection x y selection)"

subsection \<open>Concrete inputs\<close>

text \<open>
  A 3 x 1 image (dark, bright, black pixel), a selection that starts one pixel left of
  the image, and options that switch smoothing and grain off.
\<close>

definition ex_image :: ImageData where
  "ex_image = \<lparr>img_data = [10, 10, 10, 255, 200, 200, 200, 255, 0, 0, 0, 255], img_width = 3, img_height = 1\<rparr>"

definition ex_selection :: Selection where
  "ex_selection = \<lparr>sel_x = - 1, sel_y = 0, sel_width = 2, sel_height = 1\<rparr>"

definition ex_options :: PartialOptions where
  "ex_options = \<lparr>po_autoDetect = None, po_passes = Some 0, po_margin = Some 1,
                  po_grainStrength = Some 0, po_textureInjectionProbability = None\<rparr>"

text \<open>The pixels of the selection whose distance to its edge is at least \<open>layer\<close>.\<close>

definition unfilled :: "Selection \<Rightarrow> int \<Rightarrow> int \<Rightarrow> int \<Rightarrow> bool" where
  "unfilled sel layer x y \<longleftrightarrow>
     isInsideSelection x y sel \<and> layer \<le> edge_dist sel (x - sel_x sel) (y - sel_y sel)"

text \<open>The progress values of the fill stage and of the smoothing passes.\<close>

definition fill_events :: "int \<Rightarrow> real list" where
  "fill_events maxDist =
     (if maxDist > 0
      then map (\<lambda>layer. 20 + (real_of_int layer / real_of_int maxDist) * 50) [0..maxDist]
      else [])"

definition smooth_events :: "int \<Rightarrow> real list" where
  "smooth_events passes =
     map (\<lambda>pass. 75 + (real_of_int (pass + 1) / real_of_int passes) * 15) [0..passes - 1]"

definition inside :: "Selection \<Rightarrow> int \<Rightarrow> int \<Rightarrow> bool" where
  "inside sel x y \<longleftrightarrow> isInsideSelection x y sel"

text \<open>
  A 2 x 2 image with a selection wider than the image that starts left of it, a thin
  selection inside the 3 x 1 image, and options with two smoothing passes.
\<close>

definition ex_image2 :: ImageData where
  "ex_image2 =
     \<lparr>img_data = [10, 10, 10, 255, 20, 20, 20, 255, 100, 100, 100, 255, 100, 100, 100, 255],
      img_width = 2, img_height = 2\<rparr>"

definition ex_wide_selection :: Selection where
  "ex_wide_selection = \<lparr>sel_x = - 1, sel_y = 0, sel_width = 3, sel_height = 1\<rparr>"

definition ex_thin_selection :: Selection where
  "ex_thin_selection = \<lparr>sel_x = 0, sel_y = 0, sel_width = 2, sel_height = 1\<rparr>"

definition ex_options2 :: PartialOptions where
  "ex_options2 = \<lparr>po_autoDetect = None, po_passes = Some 2, po_margin = Some 1,
                   po_grainStrength = Some 0, po_textureInjectionProbability = None\<rparr>"

text \<open>The single pixel (px, py).\<close>

definition at_pixel :: "int \<Rightarrow> int \<Rightarrow> int \<Rightarrow> int \<Rightarrow> bool" where
  "at_pixel px py x y \<longleftrightarrow> x = px \<and> y = py"

text \<open>
  A 3 x 1 image whose third pixel is mid grey, a random source whose draws number 4 and 5
  are 1/4 and 3/4 (all others 1/2), and options with grain switched on.
\<close>

definition ex_image3 :: ImageData where
  "ex_image3 =
     \<lparr>img_data = [10, 10, 10, 255, 200, 200, 200, 255, 100, 100, 100, 255],
      img_width = 3, img_height = 1\<rparr>"

definition ex_rnd :: "nat \<Rightarrow> real" where
  "ex_rnd n = (if n = 4 then 1 / 4 else if n = 5 then 3 / 4 else 1 / 2)"

definition ex_options3 :: PartialOptions where
  "ex_options3 = \<lparr>po_autoDetect = None, po_passes = Some 0, po_margin = Some 1,
                   po_grainStrength = Some 2, po_textureInjectionProbability = None\<rparr>"

text \<open>
  The grain step in the words of its description: each of the three colour channels of a
  pixel receives a draw of its own. To be compared with \<open>grain_pixel\<close>.
\<close>

definition grain_pixel_independent ::
  "int \<Rightarrow> int \<Rightarrow> real \<Rightarrow> (nat \<Rightarrow> real) \<Rightarrow> int \<Rightarrow> int \<Rightarrow> nat list \<times> nat \<Rightarrow> nat list \<times> nat" where
  "grain_pixel_independent width height grainStrength rnd y x st =
     (case st of (resultData, n) \<Rightarrow>
        if x < 0 \<or> x \<ge> width \<or> y < 0 \<or> y \<ge> height then st
        else
          let idx = pix_idx width x y;
              noiseR = (rnd n - 1 / 2) * grainStrength * 2;
              noiseG = (rnd (n + 1) - 1 / 2) * grainStrength * 2;
              noiseB = (rnd (n + 2) - 1 / 2) * grainStrength * 2
          in (write_rgb resultData idx
                (grain_channel (resultData ! idx) noiseR)
                (grain_channel (resultData ! (idx + 1)) noiseG)
                (grain_channel (resultData ! (idx + 2)) noiseB), n + 3))"



text \<open>A selection of a 10 x 10 image that touches its left, top and right borders.\<close>

definition ex_tall_selection :: Selection where
  "ex_tall_selection = \<lparr>sel_x = 0, sel_y = 0, sel_width = 10, sel_height = 8\<rparr>"

text \<open>The positions (y, x) of the selection loops that pass the in-image guard.\<close>

definition in_image :: "int \<Rightarrow> int \<Rightarrow> int \<times> int \<Rightarrow> bool" where
  "in_image width height p \<longleftrightarrow> 0 \<le> snd p \<and> snd p < width \<and> 0 \<le> fst p \<and> fst p < height"



section \<open>General lemmas on loops and buffers\<close>

lemma fold_inv:
  assumes "P s" and "\<And>a t. a \<in> set xs \<Longrightarrow> P t \<Longrightarrow> P (f a t)"
  shows "P (fold f xs s)"
  using assms by (induction xs arbitrary: s) auto

lemma fold_rect_inv:
  assumes "P s" and "\<And>y x t. y \<in> set ys \<Longrightarrow> x \<in> set xs \<Longrightarrow> P t \<Longrightarrow> P (f y x t)"
  shows "P (fold (\<lambda>y. fold (\<lambda>x. f y x) xs) ys s)"
proof (rule fold_inv [where P = P, OF assms(1)])
  fix y t assume "y \<in> set ys" "P t"
  then show "P (fold (\<lambda>x. f y x) xs t)"
    by (intro fold_inv [where P = P]) (auto intro: assms(2))
qed

lemma for_each_inv:
  assumes "for_each xs f s = Inr s'" and "P s"
    and "\<And>a t t'. a \<in> set xs \<Longrightarrow> P t \<Longrightarrow> f a t = Inr t' \<Longrightarrow> P t'"
  shows "P s'"
  using assms
proof (induction xs arbitrary: s)
  case Nil
  then show ?case by simp
next
  case (Cons a xs)
  from Cons.prems(1) obtain t where t: "f a s = Inr t" and rest: "for_each xs f t = Inr s'"
    by (auto split: sum.splits)
  have "P t" using Cons.prems(2,3) t by auto
  then show ?case using Cons.IH [OF rest] Cons.prems(3) by auto
qed

lemma for_each_rect_inv:
  assumes "for_each ys (\<lambda>y. for_each xs (f y)) s = Inr s'" and "P s"
    and "\<And>y x t t'. y \<in> set ys \<Longrightarrow> x \<in> set xs \<Longrightarrow> P t \<Longrightarrow> f y x t = Inr t' \<Longrightarrow> P t'"
  shows "P s'"
proof (rule for_each_inv [where P = P, OF assms(1) assms(2)])
  fix y t t' assume "y \<in> set ys" "P t" "for_each xs (f y) t = Inr t'"
  then show "P t'"
    using assms(3) by (auto intro: for_each_inv [where P = P])
qed

lemma for_each_total:
  assumes "\<And>a t. a \<in> set xs \<Longrightarrow> \<exists>t'. f a t = Inr t'"
  shows "\<exists>s'. for_each xs f s = Inr s'"
  using assms
proof (induction xs arbitrary: s)
  case Nil
  then show ?case by simp
next
  case (Cons a xs)
  obtain t where "f a s = Inr t" using Cons.prems by fastforce
  then show ?case using Cons.IH [of t] Cons.prems by auto
qed

lemma write_rgb_same:
  assumes "same_outside W buf orig" "idx \<in> W" "idx + 1 \<in> W" "idx + 2 \<in> W"
  shows "same_outside W (write_rgb buf idx r g b) orig"
proof -
  have "write_rgb buf idx r g b ! i = buf ! i" if "i \<notin> W" for i
  proof -
    have "idx \<noteq> i" "idx + 1 \<noteq> i" "idx + 2 \<noteq> i"
      using that assms(2-4) by auto
    then show ?thesis
      unfolding write_rgb_def by simp
  qed
  moreover have "length (write_rgb buf idx r g b) = length buf"
    by (simp add: write_rgb_def)
  ultimately show ?thesis
    using assms(1) by (simp add: same_outside_def)
qed

lemma touch_pix:
  assumes "0 \<le> x" "x < width" "0 \<le> y" "y < height" "Q x y"
  shows "pix_idx width x y \<in> touch width height Q"
    and "pix_idx width x y + 1 \<in> touch width height Q"
    and "pix_idx width x y + 2 \<in> touch width height Q"
proof -
  have "\<And>c. c < 3 \<Longrightarrow> pix_idx width x y + c \<in> touch width height Q"
    using assms unfolding touch_def by blast
  from this [of 0] this [of 1] this [of 2]
  show "pix_idx width x y \<in> touch width height Q"
    and "pix_idx width x y + 1 \<in> touch width height Q"
    and "pix_idx width x y + 2 \<in> touch width height Q" by simp_all
qed

lemma write_pixel_same:
  assumes "same_outside (touch width height Q) buf orig"
    and "0 \<le> x" "x < width" "0 \<le> y" "y < height" "Q x y"
  shows "same_outside (touch width height Q) (write_rgb buf (pix_idx width x y) r g b) orig"
  using assms by (intro write_rgb_same touch_pix)

lemma pix_idx_eq:
  assumes "0 \<le> x" "0 \<le> y" "0 \<le> width"
  shows "int (pix_idx width x y) = (y * width + x) * 4"
  using assms by (simp add: pix_idx_def)

lemma row_col_unique:
  fixes x y x' y' width :: int
  assumes "0 \<le> x" "x < width" "0 \<le> x'" "x' < width" "y * width + x = y' * width + x'"
  shows "x = x' \<and> y = y'"
proof -
  have "(y * width + x) div width = y" "(y' * width + x') div width = y'"
    using assms(1-4) by simp_all
  then have "y = y'" using assms(5) by simp
  then show ?thesis using assms(5) by simp
qed

lemma pix_idx_decode:
  assumes "0 \<le> x" "x < width" "0 \<le> y" "0 \<le> x'" "x' < width" "0 \<le> y'" "c < 4" "c' < 4"
    and "pix_idx width x y + c = pix_idx width x' y' + c'"
  shows "x = x' \<and> y = y' \<and> c = c'"
proof -
  have "(y * width + x) * 4 + int c = (y' * width + x') * 4 + int c'"
    using assms pix_idx_eq [of x y width] pix_idx_eq [of x' y' width]
    by (metis (no_types, lifting) less_le_not_le of_nat_add order_trans linorder_le_cases)
  moreover define k k' where "k = y * width + x" and "k' = y' * width + x'"
  ultimately have "k = k' \<and> c = c'"
    using assms(7,8) by presburger
  then show ?thesis
    using row_col_unique [OF assms(1,2,4,5), of y y'] by (simp add: k_def k'_def)
qed

lemma touch_alpha: "i mod 4 = 3 \<Longrightarrow> i \<notin> touch width height Q"
proof
  assume a: "i mod 4 = 3" and "i \<in> touch width height Q"
  then obtain x y c where xy: "0 \<le> x" "x < width" "0 \<le> y" "c < 3" "i = pix_idx width x y + c"
    unfolding touch_def by blast
  then have "int i = (y * width + x) * 4 + int c"
    using pix_idx_eq [of x y width] by simp
  moreover define k where "k = y * width + x"
  ultimately have "int i = k * 4 + int c" by simp
  moreover have "int i mod 4 = 3" using a by presburger
  ultimately show False using xy(4) by presburger
qed

section \<open>The texture bank\<close>

lemma bank_push_row:
  "fold (\<lambda>x. bank_push imageData selection y x) xs bank =
     bank @ map (sample_at imageData) (filter (outside_sel selection) (map (\<lambda>x. (x, y)) xs))"
  by (induction xs arbitrary: bank)
     (auto simp: bank_push_def sample_at_def outside_sel_def isInsideSelection_def Let_def)

lemma bank_push_rows:
  "fold (\<lambda>y. fold (\<lambda>x. bank_push imageData selection y x) xs) ys bank =
     bank @ map (sample_at imageData)
              (filter (outside_sel selection) (concat (map (\<lambda>y. map (\<lambda>x. (x, y)) xs) ys)))"
  by (induction ys arbitrary: bank) (simp_all add: bank_push_row)

lemma buildTextureBank_scan:
  "buildTextureBank imageData selection margin =
     map (sample_at imageData) (filter (outside_sel selection) (texture_scan imageData selection margin))"
  by (simp add: buildTextureBank_def texture_scan_def bank_push_rows Let_def)

text \<open>
  C6. buildTextureBank scans the selection's bounding box grown by the margin and clipped
  to the image, in row-major order, and collects the colour of exactly the scanned pixels
  that lie outside the selection; no sample comes from a pixel inside the selection.
\<close>

theorem buildTextureBank_only_outside:
  "buildTextureBank imageData selection margin =
     map (sample_at imageData)
       (filter (outside_sel selection) (texture_scan imageData selection margin)) \<and>
   (\<forall>p \<in> set (filter (outside_sel selection) (texture_scan imageData selection margin)).
      \<not> isInsideSelection (fst p) (snd p) selection)"
  using buildTextureBank_scan by (auto simp: outside_sel_def)

theorem buildTextureBank_only_outside_witness:
  "buildTextureBank ex_image \<lparr>sel_x = 0, sel_y = 0, sel_width = 2, sel_height = 1\<rparr> 1 =
     [\<lparr>ts_r = 0, ts_g = 0, ts_b = 0\<rparr>] \<and>
   filter (outside_sel \<lparr>sel_x = 0, sel_y = 0, sel_width = 2, sel_height = 1\<rparr>)
     (texture_scan ex_image \<lparr>sel_x = 0, sel_y = 0, sel_width = 2, sel_height = 1\<rparr> 1) = [(2, 0)] \<and>
   \<not> isInsideSelection 2 0 \<lparr>sel_x = 0, sel_y = 0, sel_width = 2, sel_height = 1\<rparr>"
  using buildTextureBank_only_outside [of ex_image "\<lparr>sel_x = 0, sel_y = 0, sel_width = 2, sel_height = 1\<rparr>" 1]
  by (simp add: texture_scan_def outside_sel_def isInsideSelection_def ex_image_def sample_at_def
      pix_idx_def upto_rec1)

section \<open>Auto-detection\<close>

text \<open>
  C9. autoDetectWatermark w h is the rectangle with x = max 0 (w - 200), y = max 0 (h - 80),
  width = min 180 w, height = min 60 h; for a 400 x 300 image that is
  x = 200, y = 220, width = 180, height = 60.
\<close>

theorem autoDetectWatermark_rectangle:
  "autoDetectWatermark w h =
     \<lparr>sel_x = max 0 (w - 200), sel_y = max 0 (h - 80), sel_width = min 180 w, sel_height = min 60 h\<rparr> \<and>
   autoDetectWatermark 400 300 = \<lparr>sel_x = 200, sel_y = 220, sel_width = 180, sel_height = 60\<rparr>"
  by (simp add: autoDetectWatermark_def)

section \<open>A concrete run\<close>

lemma ex_run:
  "inpaintWatermark ex_image ex_selection ex_options (\<lambda>_. 0) =
     Inr (\<lparr>img_data = [0, 0, 0, 255, 0, 0, 0, 255, 0, 0, 0, 255], img_width = 3, img_height = 1\<rparr>,
          [20, 75, 92, 100])"
  by (simp add: inpaintWatermark_def ex_image_def ex_selection_def ex_options_def merge_options_def
      clampSelection_def buildTextureBank_def bank_push_def pix_idx_def bank_average_def bank_sum_def
      math_round_def prefill_def prefill_pixel_def write_rgb_def toUint8Clamp_def
      buildDistMap_def distMap_cell_def edge_dist_def fill_stage_def fill_layer_step_def
      fill_layer_def fill_pixel_def fill_sample_def fill_source_def isInsideSelection_def
      random_sample_def smooth_stage_def feather_stage_def feather_pixel_def feather_nearest_def
      feather_probe_def feather_blend_def grain_stage_def grain_pixel_def grain_channel_def
      new_ImageData_def Let_def upto_rec1)

section \<open>Frame, totality and progress of the pipeline\<close>

lemma same_outside_refl: "same_outside W buf buf"
  by (simp add: same_outside_def)

lemma same_outside_mono: "same_outside W a b \<Longrightarrow> W \<subseteq> W' \<Longrightarrow> same_outside W' a b"
  by (auto simp: same_outside_def)

lemma same_outside_trans: "same_outside W a b \<Longrightarrow> same_outside W b c \<Longrightarrow> same_outside W a c"
  by (auto simp: same_outside_def)

lemma touch_mono: "(\<And>x y. Q x y \<Longrightarrow> Q' x y) \<Longrightarrow> touch width height Q \<subseteq> touch width height Q'"
  unfolding touch_def by blast

lemma rect_inside:
  assumes "sel_y sel \<le> y" "y < sel_y sel + sel_height sel"
    and "sel_x sel \<le> x" "x < sel_x sel + sel_width sel"
  shows "inside sel x y"
  using assms by (simp add: inside_def isInsideSelection_def)

subsection \<open>Pre-fill, smoothing, feathering and grain write inside the selection only\<close>

lemma prefill_pixel_same:
  assumes "same_outside (touch width height Q) buf orig" "Q x y"
  shows "same_outside (touch width height Q) (prefill_pixel width height avg y x buf) orig"
  using assms by (auto simp: prefill_pixel_def split: prod.splits intro: write_pixel_same)

lemma prefill_same:
  assumes "same_outside (touch width height (inside sel)) buf orig"
  shows "same_outside (touch width height (inside sel)) (prefill width height sel avg buf) orig"
  unfolding prefill_def
  by (rule fold_rect_inv [where P = "\<lambda>b. same_outside (touch width height (inside sel)) b orig"])
     (auto intro: assms prefill_pixel_same rect_inside)

lemma smooth_pixel_same:
  assumes "same_outside (touch width height Q) buf orig" "Q x y"
  shows "same_outside (touch width height Q) (smooth_pixel width height tempData y x buf) orig"
  using assms
  by (auto simp: smooth_pixel_def Let_def split: prod.splits intro!: write_pixel_same)

lemma smooth_pass_same:
  assumes "same_outside (touch width height (inside sel)) (fst st) orig"
  shows "same_outside (touch width height (inside sel)) (fst (smooth_pass width height sel passes pass st)) orig"
proof -
  obtain buf progress where st: "st = (buf, progress)" by (cases st)
  have "same_outside (touch width height (inside sel))
          (fold (\<lambda>y. fold (\<lambda>x. smooth_pixel width height buf y x)
                  [sel_x sel..sel_x sel + sel_width sel - 1])
             [sel_y sel..sel_y sel + sel_height sel - 1] buf) orig"
    by (rule fold_rect_inv [where P = "\<lambda>b. same_outside (touch width height (inside sel)) b orig"])
       (use assms st in \<open>auto intro: smooth_pixel_same rect_inside\<close>)
  then show ?thesis by (simp add: smooth_pass_def st)
qed

lemma smooth_stage_same:
  assumes "same_outside (touch width height (inside sel)) (fst st) orig"
  shows "same_outside (touch width height (inside sel)) (fst (smooth_stage width height sel passes st)) orig"
  unfolding smooth_stage_def
  by (rule fold_inv [where P = "\<lambda>s. same_outside (touch width height (inside sel)) (fst s) orig"])
     (auto intro: assms smooth_pass_same)

lemma feather_pixel_same:
  assumes "same_outside (touch width height Q) buf orig" "Q x y"
  shows "same_outside (touch width height Q) (feather_pixel width height sel distMap originalData y x buf) orig"
  using assms
  by (auto simp: feather_pixel_def Let_def split: prod.splits intro!: write_pixel_same)

lemma feather_stage_same:
  assumes "same_outside (touch width height (inside sel)) buf orig"
  shows "same_outside (touch width height (inside sel))
           (feather_stage width height sel distMap originalData buf) orig"
  unfolding feather_stage_def
  by (rule fold_rect_inv [where P = "\<lambda>b. same_outside (touch width height (inside sel)) b orig"])
     (auto intro: assms feather_pixel_same rect_inside)

lemma grain_pixel_same:
  assumes "same_outside (touch width height Q) (fst st) orig" "Q x y"
  shows "same_outside (touch width height Q) (fst (grain_pixel width height grainStrength rnd y x st)) orig"
  using assms
  by (cases st) (auto simp: grain_pixel_def Let_def intro!: write_pixel_same)

lemma grain_stage_same:
  assumes "same_outside (touch width height (inside sel)) (fst st) orig"
  shows "same_outside (touch width height (inside sel))
           (fst (grain_stage width height sel grainStrength rnd st)) orig"
  unfolding grain_stage_def
  by (rule fold_rect_inv [where P = "\<lambda>s. same_outside (touch width height (inside sel)) (fst s) orig"])
     (auto intro: assms grain_pixel_same rect_inside)


subsection \<open>The distance map\<close>

lemma fold_product:
  "fold (\<lambda>y. fold (\<lambda>x. f y x) xs) ys s = fold (\<lambda>p. f (fst p) (snd p)) (List.product ys xs) s"
  by (induction ys arbitrary: s) (simp_all add: fold_map comp_def)

lemma distMap_untouched:
  assumes "\<And>p. p \<in> set ps \<Longrightarrow> fst p * sel_width sel + snd p \<noteq> k"
  shows "fst (fold (\<lambda>p. distMap_cell sel (fst p) (snd p)) ps st) k = fst st k"
  using assms
  by (induction ps arbitrary: st) (auto simp: distMap_cell_def Let_def split: prod.splits)

lemma distMap_written:
  assumes "inj_on (\<lambda>p. fst p * sel_width sel + snd p) (set ps)" and "(ly, lx) \<in> set ps"
  shows "fst (fold (\<lambda>p. distMap_cell sel (fst p) (snd p)) ps st) (ly * sel_width sel + lx) =
           edge_dist sel lx ly"
  using assms
proof (induction ps arbitrary: st)
  case Nil
  then show ?case by simp
next
  case (Cons p ps)
  show ?case
  proof (cases "(ly, lx) \<in> set ps")
    case True
    moreover have "inj_on (\<lambda>p. fst p * sel_width sel + snd p) (set ps)"
      using Cons.prems(1) by (simp add: inj_on_def)
    ultimately show ?thesis using Cons.IH by simp
  next
    case False
    then have p: "p = (ly, lx)" using Cons.prems(2) by simp
    have "fst q * sel_width sel + snd q \<noteq> ly * sel_width sel + lx" if "q \<in> set ps" for q
    proof
      assume "fst q * sel_width sel + snd q = ly * sel_width sel + lx"
      then have "q = (ly, lx)"
        using Cons.prems(1) that p by (auto simp: inj_on_def)
      then show False using that False by simp
    qed
    then have "fst (fold (\<lambda>p. distMap_cell sel (fst p) (snd p)) ps (distMap_cell sel ly lx st))
                 (ly * sel_width sel + lx) = fst (distMap_cell sel ly lx st) (ly * sel_width sel + lx)"
      by (rule distMap_untouched)
    moreover have "fst (distMap_cell sel ly lx st) (ly * sel_width sel + lx) = edge_dist sel lx ly"
      by (simp add: distMap_cell_def Let_def split: prod.splits)
    ultimately show ?thesis
      by (simp add: p)
  qed
qed

lemma buildDistMap_lookup:
  assumes "0 \<le> lx" "lx < sel_width sel" "0 \<le> ly" "ly < sel_height sel"
  shows "fst (buildDistMap sel) (ly * sel_width sel + lx) = edge_dist sel lx ly"
proof -
  have "inj_on (\<lambda>p. fst p * sel_width sel + snd p)
          (set (List.product [0..sel_height sel - 1] [0..sel_width sel - 1]))"
  proof (rule inj_onI)
    fix p q
    assume "p \<in> set (List.product [0..sel_height sel - 1] [0..sel_width sel - 1])"
      and "q \<in> set (List.product [0..sel_height sel - 1] [0..sel_width sel - 1])"
      and "fst p * sel_width sel + snd p = fst q * sel_width sel + snd q"
    then have "snd p = snd q \<and> fst p = fst q"
      by (intro row_col_unique [of "snd p" "sel_width sel" "snd q" "fst p" "fst q"]) auto
    then show "p = q" by (simp add: prod_eq_iff)
  qed
  moreover have "(ly, lx) \<in> set (List.product [0..sel_height sel - 1] [0..sel_width sel - 1])"
    using assms by simp
  ultimately show ?thesis
    unfolding buildDistMap_def fold_product by (rule distMap_written)
qed

lemma maxDist_zero_fold:
  assumes "snd st = 0" and "\<And>p. p \<in> set ps \<Longrightarrow> edge_dist sel (snd p) (fst p) \<le> 0"
  shows "snd (fold (\<lambda>p. distMap_cell sel (fst p) (snd p)) ps st) = 0"
  using assms
  by (induction ps arbitrary: st) (auto simp: distMap_cell_def Let_def split: prod.splits)

lemma maxDist_thin:
  assumes "sel_height sel = 1 \<or> sel_width sel = 1"
  shows "snd (buildDistMap sel) = 0"
  unfolding buildDistMap_def fold_product
  by (rule maxDist_zero_fold) (use assms in \<open>auto simp: edge_dist_def Let_def\<close>)

subsection \<open>The layered fill writes only pixels of the current layer\<close>

lemma fill_pixel_same:
  assumes "fill_pixel width height sel margin distMap originalData textureBank rnd layer ly lx st = Inr st'"
    and "same_outside (touch width height Q) (fst st) orig"
    and "distMap (ly * sel_width sel + lx) = layer \<Longrightarrow> Q (sel_x sel + lx) (sel_y sel + ly)"
  shows "same_outside (touch width height Q) (fst st') orig"
  using assms
  by (cases st)
     (auto simp: fill_pixel_def Let_def split: if_splits sum.splits prod.splits intro!: write_pixel_same)

lemma fill_layer_same:
  assumes "fill_layer width height sel margin (fst (buildDistMap sel)) originalData textureBank rnd
             layer st = Inr st'"
    and "same_outside (touch width height (unfilled sel L)) (fst st) orig"
    and "L \<le> layer"
  shows "same_outside (touch width height (unfilled sel L)) (fst st') orig"
proof (rule for_each_rect_inv
    [where P = "\<lambda>s. same_outside (touch width height (unfilled sel L)) (fst s) orig",
      OF assms(1) [unfolded fill_layer_def] assms(2)])
  fix ly lx t t'
  assume ly: "ly \<in> set [0..sel_height sel - 1]" and lx: "lx \<in> set [0..sel_width sel - 1]"
    and t: "same_outside (touch width height (unfilled sel L)) (fst t) orig"
    and run: "fill_pixel width height sel margin (fst (buildDistMap sel)) originalData textureBank rnd
                layer ly lx t = Inr t'"
  have "unfilled sel L (sel_x sel + lx) (sel_y sel + ly)"
    if "fst (buildDistMap sel) (ly * sel_width sel + lx) = layer"
    using that ly lx assms(3) buildDistMap_lookup [of lx sel ly]
    by (simp add: unfilled_def isInsideSelection_def)
  then show "same_outside (touch width height (unfilled sel L)) (fst t') orig"
    using fill_pixel_same [OF run t] by simp
qed

lemma fill_layers_same:
  assumes "for_each ls (fill_layer_step width height sel margin (fst (buildDistMap sel)) maxDist
                          originalData textureBank rnd) st = Inr st'"
    and "same_outside (touch width height (unfilled sel L)) (fst (fst st)) orig"
    and "\<And>l. l \<in> set ls \<Longrightarrow> L \<le> l"
  shows "same_outside (touch width height (unfilled sel L)) (fst (fst st')) orig"
proof (rule for_each_inv
    [where P = "\<lambda>s. same_outside (touch width height (unfilled sel L)) (fst (fst s)) orig",
      OF assms(1) assms(2)])
  fix l t t'
  assume "l \<in> set ls"
    and "same_outside (touch width height (unfilled sel L)) (fst (fst t)) orig"
    and "fill_layer_step width height sel margin (fst (buildDistMap sel)) maxDist originalData
           textureBank rnd l t = Inr t'"
  then show "same_outside (touch width height (unfilled sel L)) (fst (fst t')) orig"
    using assms(3) [of l]
    by (cases t) (auto simp: fill_layer_step_def split: sum.splits dest: fill_layer_same)
qed

lemma unfilled_inside: "unfilled sel L x y \<Longrightarrow> inside sel x y"
  by (simp add: unfilled_def inside_def)

lemma inside_unfilled:
  assumes "inside sel x y"
  shows "unfilled sel 0 x y"
  using assms by (auto simp: unfilled_def inside_def isInsideSelection_def edge_dist_def Let_def)

lemma fill_stage_same:
  assumes "fill_stage width height sel margin (fst (buildDistMap sel)) maxDist originalData
             textureBank rnd st = Inr st'"
    and "same_outside (touch width height (inside sel)) (fst (fst st)) orig"
  shows "same_outside (touch width height (inside sel)) (fst (fst st')) orig"
proof -
  have eq: "touch width height (unfilled sel 0) = touch width height (inside sel)"
    by (intro equalityI touch_mono) (auto intro: unfilled_inside inside_unfilled)
  show ?thesis
    using fill_layers_same [OF assms(1) [unfolded fill_stage_def], of 0 orig] assms(2)
    by (simp add: eq)
qed


subsection \<open>No stage throws\<close>

lemma random_sample_total:
  assumes "rnd_ok rnd" "textureBank \<noteq> []"
  shows "\<exists>st'. random_sample textureBank rnd i st = Inr st'"
proof -
  obtain sumR sumG sumB totalWeight n where st: "st = ((sumR, sumG, sumB, totalWeight), n)"
    by (metis prod.exhaust)
  have r: "0 \<le> rnd n" "rnd n < 1" using assms(1) by (simp_all add: rnd_ok_def)
  have len: "0 < real (length textureBank)" using assms(2) by simp
  have "0 \<le> rnd n * real (length textureBank)" using r(1) by simp
  then have lo: "0 \<le> \<lfloor>rnd n * real (length textureBank)\<rfloor>" by simp
  have "rnd n * real (length textureBank) < 1 * real (length textureBank)"
    using r(2) len by (intro mult_strict_right_mono)
  then have hi: "\<lfloor>rnd n * real (length textureBank)\<rfloor> < int (length textureBank)"
    by (simp add: floor_less_iff)
  show ?thesis using lo hi by (simp add: random_sample_def st Let_def)
qed

lemma fill_pixel_total:
  assumes "rnd_ok rnd" "textureBank \<noteq> []"
  shows "\<exists>st'. fill_pixel width height sel margin distMap originalData textureBank rnd layer ly lx st
           = Inr st'"
proof -
  obtain resultData n where st: "st = (resultData, n)" by (cases st)
  have "\<exists>s'. for_each is (random_sample textureBank rnd) s = Inr s'" for s "is"
    by (rule for_each_total) (rule random_sample_total [OF assms])
  then have tot: "for_each is (random_sample textureBank rnd) s \<noteq> Inl e" for s e "is"
    by (metis Inl_Inr_False)
  show ?thesis
    unfolding fill_pixel_def st Let_def
    by (auto simp: tot simp del: for_each.simps split: sum.splits prod.splits)
qed

lemma fill_layer_total:
  assumes "rnd_ok rnd" "textureBank \<noteq> []"
  shows "\<exists>st'. fill_layer width height sel margin distMap originalData textureBank rnd layer st = Inr st'"
  unfolding fill_layer_def
  by (intro for_each_total fill_pixel_total assms)

lemma fill_stage_total:
  assumes "rnd_ok rnd" "textureBank \<noteq> []"
  shows "\<exists>st'. fill_stage width height sel margin distMap maxDist originalData textureBank rnd st
           = Inr st'"
  unfolding fill_stage_def
proof (rule for_each_total)
  fix layer and t :: "(nat list \<times> nat) \<times> real list"
  obtain buf progress where t: "t = (buf, progress)" by (cases t)
  obtain buf' where "fill_layer width height sel margin distMap originalData textureBank rnd layer buf
      = Inr buf'"
    using fill_layer_total [OF assms] by blast
  then show "\<exists>t'. fill_layer_step width height sel margin distMap maxDist originalData textureBank rnd
                    layer t = Inr t'"
    by (simp add: fill_layer_step_def t)
qed

subsection \<open>The progress reports\<close>

lemma fill_layers_progress:
  assumes "for_each ls (fill_layer_step width height sel margin distMap maxDist originalData
                          textureBank rnd) (s, progress) = Inr (s', progress')"
  shows "progress' = progress @
           (if maxDist > 0
            then map (\<lambda>layer. 20 + (real_of_int layer / real_of_int maxDist) * 50) ls else [])"
  using assms
proof (induction ls arbitrary: s progress)
  case Nil
  then show ?case by simp
next
  case (Cons l ls)
  from Cons.prems obtain u where
    u: "fill_layer_step width height sel margin distMap maxDist originalData textureBank rnd l
          (s, progress) = Inr u"
    and rest: "for_each ls (fill_layer_step width height sel margin distMap maxDist originalData
                 textureBank rnd) u = Inr (s', progress')"
    by (auto split: sum.splits)
  from u obtain t where
    "u = (t, if maxDist > 0
             then progress @ [20 + (real_of_int l / real_of_int maxDist) * 50]
             else progress)"
    by (auto simp: fill_layer_step_def split: sum.splits)
  with rest have "for_each ls (fill_layer_step width height sel margin distMap maxDist originalData
                    textureBank rnd)
                    (t, if maxDist > 0
                        then progress @ [20 + (real_of_int l / real_of_int maxDist) * 50]
                        else progress) = Inr (s', progress')"
    by simp
  from Cons.IH [OF this] show ?case by simp
qed

lemma fill_stage_progress:
  assumes "fill_stage width height sel margin distMap maxDist originalData textureBank rnd
             (s, progress) = Inr (s', progress')"
  shows "progress' = progress @ fill_events maxDist"
  using fill_layers_progress [OF assms [unfolded fill_stage_def]]
  by (simp add: fill_events_def)

lemma smooth_passes_progress:
  "snd (fold (smooth_pass width height sel passes) ps (buf, progress)) =
     progress @ map (\<lambda>pass. 75 + (real_of_int (pass + 1) / real_of_int passes) * 15) ps"
  by (induction ps arbitrary: buf progress) (simp_all add: smooth_pass_def Let_def)

lemma smooth_stage_progress:
  "snd (smooth_stage width height sel passes (buf, progress)) = progress @ smooth_events passes"
  by (simp add: smooth_stage_def smooth_events_def smooth_passes_progress)

subsection \<open>The whole pipeline\<close>

lemma inpaint_skips:
  assumes "sel_width (clampSelection (img_width imageData) (img_height imageData) selection) \<le> 0 \<or>
           sel_height (clampSelection (img_width imageData) (img_height imageData) selection) \<le> 0 \<or>
           buildTextureBank imageData
             (clampSelection (img_width imageData) (img_height imageData) selection)
             (opt_margin (merge_options options)) = []"
  shows "inpaintWatermark imageData selection options rnd = Inr (imageData, [])"
  using assms by (auto simp: inpaintWatermark_def Let_def)

lemma inpaint_proceeds:
  fixes imageData selection options rnd
  defines "sel \<equiv> clampSelection (img_width imageData) (img_height imageData) selection"
  assumes run: "inpaintWatermark imageData selection options rnd = Inr (out, progress)"
    and nd: "0 < sel_width sel" "0 < sel_height sel"
    and ne: "buildTextureBank imageData sel (opt_margin (merge_options options)) \<noteq> []"
  shows "same_outside (touch (img_width imageData) (img_height imageData) (inside sel))
           (img_data out) (img_data imageData) \<and>
         img_width out = img_width imageData \<and> img_height out = img_height imageData \<and>
         progress = [20] @ fill_events (snd (buildDistMap sel)) @ [75] @
                    smooth_events (opt_passes (merge_options options)) @ [92, 100] \<and>
         (\<exists>buf n. length buf = length (img_data imageData) \<and>
            img_data out =
              fst (grain_stage (img_width imageData) (img_height imageData) sel
                     (opt_grainStrength (merge_options options)) rnd (buf, n)))"
proof -
  let ?w = "img_width imageData" and ?h = "img_height imageData"
  let ?opts = "merge_options options"
  let ?bank = "buildTextureBank imageData sel (opt_margin ?opts)"
  let ?res0 = "prefill ?w ?h sel (bank_average ?bank) (img_data imageData)"
  let ?W = "touch ?w ?h (inside sel)"
  let ?dm = "fst (buildDistMap sel)" and ?md = "snd (buildDistMap sel)"
  from run nd ne obtain buf1 n1 pr1 buf2 pr2 buf4 n4 where
    fill: "fill_stage ?w ?h sel (opt_margin ?opts) ?dm ?md (img_data imageData) ?bank rnd
             ((?res0, 0), [20]) = Inr ((buf1, n1), pr1)"
    and smooth: "smooth_stage ?w ?h sel (opt_passes ?opts) (buf1, pr1 @ [75]) = (buf2, pr2)"
    and grain: "grain_stage ?w ?h sel (opt_grainStrength ?opts) rnd
                  (feather_stage ?w ?h sel ?dm (img_data imageData) buf2, n1) = (buf4, n4)"
    and out: "new_ImageData buf4 ?w ?h = Inr out"
    and pr: "progress = pr2 @ [92] @ [100]"
    unfolding inpaintWatermark_def Let_def sel_def
    by (auto split: sum.splits prod.splits if_splits)
  have s0: "same_outside ?W ?res0 (img_data imageData)"
    by (rule prefill_same) (rule same_outside_refl)
  have s1: "same_outside ?W buf1 (img_data imageData)"
    using fill_stage_same [OF fill] s0 by simp
  have s2: "same_outside ?W buf2 (img_data imageData)"
    using smooth_stage_same [of ?w ?h sel "(buf1, pr1 @ [75])" "img_data imageData" "opt_passes ?opts"]
      s1 smooth by simp
  have s3: "same_outside ?W (feather_stage ?w ?h sel ?dm (img_data imageData) buf2) (img_data imageData)"
    by (rule feather_stage_same) (rule s2)
  have s4: "same_outside ?W buf4 (img_data imageData)"
    using grain_stage_same
      [of ?w ?h sel "(feather_stage ?w ?h sel ?dm (img_data imageData) buf2, n1)" "img_data imageData"
        "opt_grainStrength ?opts" rnd] s3 grain by simp
  have o: "out = \<lparr>img_data = buf4, img_width = ?w, img_height = ?h\<rparr>"
    using out by (auto simp: new_ImageData_def split: if_splits)
  have p1: "pr1 = [20] @ fill_events ?md"
    using fill_stage_progress [OF fill] by simp
  have p2: "pr2 = (pr1 @ [75]) @ smooth_events (opt_passes ?opts)"
    using smooth_stage_progress [of ?w ?h sel "opt_passes ?opts" buf1 "pr1 @ [75]"] smooth by simp
  have "length (feather_stage ?w ?h sel ?dm (img_data imageData) buf2) = length (img_data imageData)"
    using s3 by (simp add: same_outside_def)
  moreover have "img_data out =
      fst (grain_stage ?w ?h sel (opt_grainStrength ?opts) rnd
             (feather_stage ?w ?h sel ?dm (img_data imageData) buf2, n1))"
    using o grain by simp
  ultimately have "\<exists>buf n. length buf = length (img_data imageData) \<and>
      img_data out = fst (grain_stage ?w ?h sel (opt_grainStrength ?opts) rnd (buf, n))"
    by blast
  then show ?thesis
    using s4 o p1 p2 pr by simp
qed

lemma inpaint_total:
  assumes "wf_image imageData" "rnd_ok rnd"
  shows "\<exists>out progress. inpaintWatermark imageData selection options rnd = Inr (out, progress)"
proof -
  let ?w = "img_width imageData" and ?h = "img_height imageData"
  let ?opts = "merge_options options"
  let ?sel = "clampSelection ?w ?h selection"
  let ?bank = "buildTextureBank imageData ?sel (opt_margin ?opts)"
  let ?res0 = "prefill ?w ?h ?sel (bank_average ?bank) (img_data imageData)"
  let ?W = "touch ?w ?h (inside ?sel)"
  obtain dm md where dm: "buildDistMap ?sel = (dm, md)"
    by (cases "buildDistMap ?sel")
  then have dm_eq: "dm = fst (buildDistMap ?sel)" by simp
  show ?thesis
  proof (cases "sel_width ?sel \<le> 0 \<or> sel_height ?sel \<le> 0 \<or> ?bank = []")
    case True
    then show ?thesis using inpaint_skips [of imageData selection options rnd] by simp
  next
    case False
    then have ne: "?bank \<noteq> []" by simp
    obtain buf1 n1 pr1 where
      fill: "fill_stage ?w ?h ?sel (opt_margin ?opts) dm md (img_data imageData) ?bank rnd
               ((?res0, 0), [20]) = Inr ((buf1, n1), pr1)"
      using fill_stage_total [OF assms(2) ne] by (metis prod.exhaust)
    obtain buf2 pr2 where
      smooth: "smooth_stage ?w ?h ?sel (opt_passes ?opts) (buf1, pr1 @ [75]) = (buf2, pr2)"
      by (metis prod.exhaust)
    obtain buf4 n4 where
      grain: "grain_stage ?w ?h ?sel (opt_grainStrength ?opts) rnd
                (feather_stage ?w ?h ?sel dm (img_data imageData) buf2, n1) = (buf4, n4)"
      by (metis prod.exhaust)
    have s0: "same_outside ?W ?res0 (img_data imageData)"
      by (rule prefill_same) (rule same_outside_refl)
    have s1: "same_outside ?W buf1 (img_data imageData)"
      using fill_stage_same [OF fill [unfolded dm_eq]] s0 by simp
    have s2: "same_outside ?W buf2 (img_data imageData)"
      using smooth_stage_same [of ?w ?h ?sel "(buf1, pr1 @ [75])" "img_data imageData" "opt_passes ?opts"]
        s1 smooth by simp
    have s3: "same_outside ?W (feather_stage ?w ?h ?sel dm (img_data imageData) buf2) (img_data imageData)"
      by (rule feather_stage_same) (rule s2)
    have s4: "same_outside ?W buf4 (img_data imageData)"
      using grain_stage_same
        [of ?w ?h ?sel "(feather_stage ?w ?h ?sel dm (img_data imageData) buf2, n1)" "img_data imageData"
          "opt_grainStrength ?opts" rnd] s3 grain by simp
    then have "length buf4 = length (img_data imageData)"
      by (simp add: same_outside_def)
    then have out: "new_ImageData buf4 ?w ?h =
        Inr \<lparr>img_data = buf4, img_width = ?w, img_height = ?h\<rparr>"
      using assms(1) by (simp add: new_ImageData_def wf_image_def)
    show ?thesis
      using False fill smooth grain out
      unfolding inpaintWatermark_def Let_def
      by (simp add: dm)
  qed
qed

section \<open>The claims about the whole pipeline\<close>

lemma inpaint_frame:
  assumes "inpaintWatermark imageData selection options rnd = Inr (out, progress)"
  shows "same_outside
           (touch (img_width imageData) (img_height imageData)
              (inside (clampSelection (img_width imageData) (img_height imageData) selection)))
           (img_data out) (img_data imageData) \<and>
         img_width out = img_width imageData \<and> img_height out = img_height imageData"
proof (cases "sel_width (clampSelection (img_width imageData) (img_height imageData) selection) \<le> 0 \<or>
           sel_height (clampSelection (img_width imageData) (img_height imageData) selection) \<le> 0 \<or>
           buildTextureBank imageData
             (clampSelection (img_width imageData) (img_height imageData) selection)
             (opt_margin (merge_options options)) = []")
  case True
  then have "out = imageData"
    using inpaint_skips [OF True, of rnd] assms by simp
  then show ?thesis by (simp add: same_outside_refl)
next
  case False
  then show ?thesis using inpaint_proceeds [OF assms] by simp
qed

lemma touch_outside:
  assumes "0 \<le> x" "x < width" "0 \<le> y" "y < height" "\<not> Q x y" "c < 4"
  shows "pix_idx width x y + c \<notin> touch width height Q"
proof
  assume "pix_idx width x y + c \<in> touch width height Q"
  then obtain x' y' c' where q: "0 \<le> x'" "x' < width" "0 \<le> y'" "y' < height" "Q x' y'" "c' < 3"
    "pix_idx width x y + c = pix_idx width x' y' + c'"
    unfolding touch_def by blast
  have "x = x' \<and> y = y' \<and> c = c'"
    by (rule pix_idx_decode [OF assms(1,2,3) q(1,2,3) assms(6) _ q(7)]) (use q(6) in simp)
  then show False using q(5) assms(5) by simp
qed

text \<open>The frame of the pipeline, relative to the rectangle the clamping step computes.\<close>

lemma inpaint_frame_clamped:
  assumes "inpaintWatermark imageData selection options rnd = Inr (out, progress)"
    and "0 \<le> x" "x < img_width imageData" "0 \<le> y" "y < img_height imageData"
    and "\<not> isInsideSelection x y (clampSelection (img_width imageData) (img_height imageData) selection)"
    and "c < 4"
  shows "img_data out ! (pix_idx (img_width imageData) x y + c) =
         img_data imageData ! (pix_idx (img_width imageData) x y + c)"
proof -
  have "pix_idx (img_width imageData) x y + c \<notin>
          touch (img_width imageData) (img_height imageData)
            (inside (clampSelection (img_width imageData) (img_height imageData) selection))"
    using assms(2-7) by (intro touch_outside) (simp_all add: inside_def)
  then show ?thesis
    using inpaint_frame [OF assms(1)] by (simp add: same_outside_def)
qed

text \<open>
  When the caller's rectangle starts inside the image (non-negative origin), the clamped
  rectangle lies within it, and the frame holds relative to the caller's rectangle.
\<close>

lemma clamp_within_selection:
  assumes "0 \<le> sel_x selection" "0 \<le> sel_y selection"
    and "isInsideSelection x y (clampSelection width height selection)"
  shows "isInsideSelection x y selection"
  using assms by (auto simp: isInsideSelection_def clampSelection_def)

lemma clamp_bounds_nonneg_origin:
  assumes "0 \<le> sel_x selection" "0 \<le> sel_y selection"
    and "0 < sel_width (clampSelection width height selection)"
    and "0 < sel_height (clampSelection width height selection)"
  shows "0 \<le> sel_x (clampSelection width height selection) \<and>
         0 \<le> sel_y (clampSelection width height selection) \<and>
         sel_x (clampSelection width height selection) + sel_width (clampSelection width height selection)
           \<le> width \<and>
         sel_y (clampSelection width height selection) + sel_height (clampSelection width height selection)
           \<le> height"
  using assms by (auto simp: clampSelection_def)

lemma inpaint_frame_nonneg_origin:
  assumes "inpaintWatermark imageData selection options rnd = Inr (out, progress)"
    and "0 \<le> sel_x selection" "0 \<le> sel_y selection"
    and "0 \<le> x" "x < img_width imageData" "0 \<le> y" "y < img_height imageData"
    and "\<not> isInsideSelection x y selection" and "c < 3"
  shows "img_data out ! (pix_idx (img_width imageData) x y + c) =
         img_data imageData ! (pix_idx (img_width imageData) x y + c)"
  using assms clamp_within_selection [of selection x y "img_width imageData" "img_height imageData"]
  by (intro inpaint_frame_clamped [OF assms(1)]) auto

text \<open>
  C1. Every pixel strictly outside the selection keeps its RGB channels. The lemmas above
  show this relative to the clamped rectangle, and relative to the caller's rectangle
  when its origin is non-negative. For a rectangle that starts left of the image the
  clamped rectangle is wider than the caller's: on the 3 x 1 image, with the selection
  x = -1, width = 2, the pixel (1, 0) lies outside the selection, holds 200 in each colour
  channel, and is returned as 0.
\<close>

theorem inpaint_changes_pixel_outside_selection:
  "\<not> isInsideSelection 1 0 ex_selection \<and>
   img_data ex_image ! pix_idx (img_width ex_image) 1 0 = 200 \<and>
   inpaintWatermark ex_image ex_selection ex_options (\<lambda>_. 0) =
     Inr (\<lparr>img_data = [0, 0, 0, 255, 0, 0, 0, 255, 0, 0, 0, 255], img_width = 3, img_height = 1\<rparr>,
          [20, 75, 92, 100])"
  using ex_run by (simp add: isInsideSelection_def ex_selection_def ex_image_def pix_idx_def)

text \<open>
  C4. The clamped selection the pipeline proceeds with lies within the image. It does when
  the caller's origin is non-negative (\<open>clamp_bounds_nonneg_origin\<close>). For the 2 x 2 image
  and the selection x = -1, width = 3, height = 1 the clamped rectangle is x = 0, width = 3,
  so x + width exceeds the image width, the texture bank is not empty, and the pipeline
  does not return the input with no progress reported.
\<close>

theorem clamp_exceeds_image_for_negative_origin:
  "clampSelection (img_width ex_image2) (img_height ex_image2) ex_wide_selection =
     \<lparr>sel_x = 0, sel_y = 0, sel_width = 3, sel_height = 1\<rparr> \<and>
   \<not> (0 + 3 \<le> img_width ex_image2) \<and>
   buildTextureBank ex_image2 \<lparr>sel_x = 0, sel_y = 0, sel_width = 3, sel_height = 1\<rparr> 1 =
     [\<lparr>ts_r = 100, ts_g = 100, ts_b = 100\<rparr>, \<lparr>ts_r = 100, ts_g = 100, ts_b = 100\<rparr>] \<and>
   inpaintWatermark ex_image2 ex_wide_selection ex_options (\<lambda>_. 0) \<noteq> Inr (ex_image2, [])"
proof -
  have c: "clampSelection (img_width ex_image2) (img_height ex_image2) ex_wide_selection =
      \<lparr>sel_x = 0, sel_y = 0, sel_width = 3, sel_height = 1\<rparr>"
    by (simp add: clampSelection_def ex_image2_def ex_wide_selection_def)
  have b: "buildTextureBank ex_image2 \<lparr>sel_x = 0, sel_y = 0, sel_width = 3, sel_height = 1\<rparr> 1 =
      [\<lparr>ts_r = 100, ts_g = 100, ts_b = 100\<rparr>, \<lparr>ts_r = 100, ts_g = 100, ts_b = 100\<rparr>]"
    by (simp add: buildTextureBank_def bank_push_def pix_idx_def ex_image2_def Let_def upto_rec1)
  have m: "opt_margin (merge_options ex_options) = 1"
    by (simp add: merge_options_def ex_options_def)
  obtain out progress where
    run: "inpaintWatermark ex_image2 ex_wide_selection ex_options (\<lambda>_. 0) = Inr (out, progress)"
    using inpaint_total [of ex_image2 "\<lambda>_. 0" ex_wide_selection ex_options]
    by (auto simp: wf_image_def rnd_ok_def ex_image2_def)
  have "progress \<noteq> []"
    using inpaint_proceeds [OF run] by (simp add: c b m)
  then show ?thesis using run c b by (simp add: ex_image2_def)
qed

text \<open>
  C2. For every well-formed image, selection and options, inpaintWatermark returns an image
  of the same dimensions whose alpha channel (every offset 4 j + 3) equals the input's.
\<close>

theorem inpaint_alpha_unchanged:
  assumes "wf_image imageData" "rnd_ok rnd"
  shows "\<exists>out progress.
           inpaintWatermark imageData selection options rnd = Inr (out, progress) \<and>
           img_width out = img_width imageData \<and> img_height out = img_height imageData \<and>
           length (img_data out) = length (img_data imageData) \<and>
           (\<forall>j. img_data out ! (4 * j + 3) = img_data imageData ! (4 * j + 3))"
proof -
  obtain out progress where run: "inpaintWatermark imageData selection options rnd = Inr (out, progress)"
    using inpaint_total [OF assms] by blast
  have "(4 * j + 3) \<notin> touch w h Q" for j :: nat and w h Q
    by (rule touch_alpha) presburger
  then show ?thesis
    using inpaint_frame [OF run] run by (auto simp: same_outside_def)
qed

theorem inpaint_alpha_unchanged_witness:
  "\<exists>out progress.
     inpaintWatermark ex_image ex_selection ex_options (\<lambda>_. 1 / 2) = Inr (out, progress) \<and>
     img_width out = 3 \<and> img_height out = 1 \<and>
     length (img_data out) = length (img_data ex_image) \<and>
     (\<forall>j. img_data out ! (4 * j + 3) = img_data ex_image ! (4 * j + 3))"
  using inpaint_alpha_unchanged [of ex_image "\<lambda>_. 1 / 2" ex_selection ex_options]
  by (simp add: wf_image_def rnd_ok_def ex_image_def)

text \<open>
  C3. inpaintWatermark never raises on a well-formed image (with a random source in [0, 1));
  and when the clamped selection has width or height at most zero, or the texture bank is
  empty, it returns the input image itself, with no progress reported.
\<close>

theorem inpaint_never_raises:
  assumes "wf_image imageData" "rnd_ok rnd"
  shows "(\<exists>out progress. inpaintWatermark imageData selection options rnd = Inr (out, progress)) \<and>
         (sel_width (clampSelection (img_width imageData) (img_height imageData) selection) \<le> 0 \<or>
          sel_height (clampSelection (img_width imageData) (img_height imageData) selection) \<le> 0 \<or>
          buildTextureBank imageData
            (clampSelection (img_width imageData) (img_height imageData) selection)
            (opt_margin (merge_options options)) = [] \<longrightarrow>
          inpaintWatermark imageData selection options rnd = Inr (imageData, []))"
  using inpaint_total [OF assms] inpaint_skips by blast

theorem inpaint_never_raises_witness:
  "inpaintWatermark ex_image \<lparr>sel_x = 5, sel_y = 0, sel_width = 2, sel_height = 1\<rparr> ex_options
     (\<lambda>_. 1 / 2) = Inr (ex_image, []) \<and>
   inpaintWatermark ex_image \<lparr>sel_x = 0, sel_y = 0, sel_width = 3, sel_height = 1\<rparr> ex_options
     (\<lambda>_. 1 / 2) = Inr (ex_image, [])"
  using inpaint_never_raises [of ex_image "\<lambda>_. 1 / 2"
      "\<lparr>sel_x = 5, sel_y = 0, sel_width = 2, sel_height = 1\<rparr>" ex_options]
    inpaint_never_raises [of ex_image "\<lambda>_. 1 / 2"
      "\<lparr>sel_x = 0, sel_y = 0, sel_width = 3, sel_height = 1\<rparr>" ex_options]
  by (simp add: wf_image_def rnd_ok_def ex_image_def clampSelection_def buildTextureBank_def
      bank_push_def merge_options_def ex_options_def upto_rec1)

text \<open>
  C8 as stated fails: for a thin selection (maxDist = 0) the reports of a run are
  20, 75, 82.5, 90, 92, 100; the value 70 is not among them.
\<close>

theorem thin_selection_progress_skips_70:
  "snd (buildDistMap (clampSelection (img_width ex_image) (img_height ex_image) ex_thin_selection)) = 0 \<and>
   map_sum id snd (inpaintWatermark ex_image ex_thin_selection ex_options2 (\<lambda>_. 0)) =
     Inr [20, 75, 165 / 2, 90, 92, 100] \<and>
   (70 :: real) \<notin> set [20, 75, 165 / 2, 90, 92, 100]"
proof -
  have c: "clampSelection (img_width ex_image) (img_height ex_image) ex_thin_selection =
      \<lparr>sel_x = 0, sel_y = 0, sel_width = 2, sel_height = 1\<rparr>"
    by (simp add: clampSelection_def ex_image_def ex_thin_selection_def)
  have b: "buildTextureBank ex_image \<lparr>sel_x = 0, sel_y = 0, sel_width = 2, sel_height = 1\<rparr> 1 =
      [\<lparr>ts_r = 0, ts_g = 0, ts_b = 0\<rparr>]"
    by (simp add: buildTextureBank_def bank_push_def pix_idx_def ex_image_def Let_def upto_rec1)
  have m: "opt_margin (merge_options ex_options2) = 1" "opt_passes (merge_options ex_options2) = 2"
    by (simp_all add: merge_options_def ex_options2_def)
  have d: "snd (buildDistMap \<lparr>sel_x = 0, sel_y = 0, sel_width = 2, sel_height = 1\<rparr>) = 0"
    by (rule maxDist_thin) simp
  obtain out progress where
    run: "inpaintWatermark ex_image ex_thin_selection ex_options2 (\<lambda>_. 0) = Inr (out, progress)"
    using inpaint_total [of ex_image "\<lambda>_. 0" ex_thin_selection ex_options2]
    by (auto simp: wf_image_def rnd_ok_def ex_image_def)
  have "progress = [20, 75, 165 / 2, 90, 92, 100]"
    using inpaint_proceeds [OF run]
    by (simp add: c b m d fill_events_def smooth_events_def upto_rec1)
  then show ?thesis using run c d by simp
qed

text \<open>
  C8, amended. When the distance-field maximum is 0 and the pipeline proceeds, the fill stage
  reports nothing (the guard \<^verbatim>\<open>maxDist > 0\<close> skips the report, so nothing is divided by
  zero): the report 20 of the pre-fill is followed directly by the 75 that closes the
  fill stage, then by the smoothing reports, 92 and 100.
\<close>

theorem fill_silent_when_maxDist_zero:
  assumes "wf_image imageData" "rnd_ok rnd"
    and "0 < sel_width (clampSelection (img_width imageData) (img_height imageData) selection)"
    and "0 < sel_height (clampSelection (img_width imageData) (img_height imageData) selection)"
    and "buildTextureBank imageData
           (clampSelection (img_width imageData) (img_height imageData) selection)
           (opt_margin (merge_options options)) \<noteq> []"
    and "snd (buildDistMap (clampSelection (img_width imageData) (img_height imageData) selection)) = 0"
  shows "\<exists>out. inpaintWatermark imageData selection options rnd =
           Inr (out, 20 # 75 # smooth_events (opt_passes (merge_options options)) @ [92, 100])"
proof -
  obtain out progress where run: "inpaintWatermark imageData selection options rnd = Inr (out, progress)"
    using inpaint_total [OF assms(1,2)] by blast
  have "progress = 20 # 75 # smooth_events (opt_passes (merge_options options)) @ [92, 100]"
    using inpaint_proceeds [OF run assms(3,4,5)] assms(6) by (simp add: fill_events_def)
  then show ?thesis using run by blast
qed

theorem fill_silent_when_maxDist_zero_witness:
  "\<exists>out. inpaintWatermark ex_image ex_thin_selection ex_options2 (\<lambda>_. 1 / 2) =
     Inr (out, [20, 75, 165 / 2, 90, 92, 100])"
  using fill_silent_when_maxDist_zero [of ex_image "\<lambda>_. 1 / 2" ex_thin_selection ex_options2]
  by (simp add: wf_image_def rnd_ok_def ex_image_def ex_thin_selection_def ex_options2_def
      clampSelection_def buildTextureBank_def bank_push_def merge_options_def buildDistMap_def
      distMap_cell_def edge_dist_def smooth_events_def pix_idx_def Let_def upto_rec1)

section \<open>Single pixels under feathering and grain\<close>

lemma fold_pointwise:
  fixes f :: "'p \<Rightarrow> 's \<Rightarrow> 's" and g :: "'s \<Rightarrow> nat list"
  assumes frame: "\<And>q s. q \<in> set ps \<Longrightarrow> q \<noteq> p \<Longrightarrow> same_outside (- C) (g (f q s)) (g s)"
    and inv: "\<And>q s. q \<in> set ps \<Longrightarrow> P s \<Longrightarrow> P (f q s)" and init: "P s0"
    and once: "p \<in> set ps" "distinct ps"
  shows "\<exists>s. P s \<and> same_outside (- C) (g s) (g s0) \<and>
             same_outside (- C) (g (fold f ps s0)) (g (f p s))"
proof -
  obtain pre post where ps: "ps = pre @ p # post"
    using once(1) by (auto dest: split_list)
  then have notin: "p \<notin> set pre" "p \<notin> set post"
    using once(2) by auto
  let ?s = "fold f pre s0"
  have "P ?s \<and> same_outside (- C) (g ?s) (g s0)"
  proof (rule fold_inv [where P = "\<lambda>s. P s \<and> same_outside (- C) (g s) (g s0)"])
    show "P s0 \<and> same_outside (- C) (g s0) (g s0)"
      using init by (simp add: same_outside_refl)
  next
    fix q s assume "q \<in> set pre" and "P s \<and> same_outside (- C) (g s) (g s0)"
    then show "P (f q s) \<and> same_outside (- C) (g (f q s)) (g s0)"
      using frame [of q s] inv [of q s] notin(1) ps
      by (auto intro: same_outside_trans)
  qed
  moreover have "same_outside (- C) (g (fold f post t)) (g t)" for t
  proof (rule fold_inv [where P = "\<lambda>s. same_outside (- C) (g s) (g t)"])
    show "same_outside (- C) (g t) (g t)" by (rule same_outside_refl)
  next
    fix q s assume "q \<in> set post" and "same_outside (- C) (g s) (g t)"
    then show "same_outside (- C) (g (f q s)) (g t)"
      using frame [of q s] notin(2) ps by (auto intro: same_outside_trans)
  qed
  then have "same_outside (- C) (g (fold f ps s0)) (g (f p ?s))"
    by (simp add: ps)
  ultimately show ?thesis by blast
qed

lemma touch_at_pixel_disjoint:
  assumes "(x, y) \<noteq> (px, py)"
  shows "touch width height (at_pixel x y) \<subseteq> - touch width height (at_pixel px py)"
proof
  fix i assume "i \<in> touch width height (at_pixel x y)"
  then obtain c where c: "0 \<le> x" "x < width" "0 \<le> y" "y < height" "c < 3"
    "i = pix_idx width x y + c"
    unfolding touch_def at_pixel_def by blast
  have "pix_idx width x y + c \<notin> touch width height (at_pixel px py)"
    using c(1-5) assms by (intro touch_outside) (auto simp: at_pixel_def)
  then show "i \<in> - touch width height (at_pixel px py)" using c(6) by simp
qed

lemma write_rgb_nth:
  assumes "idx + 2 < length buf"
  shows "write_rgb buf idx r g b ! idx = r"
    and "write_rgb buf idx r g b ! (idx + 1) = g"
    and "write_rgb buf idx r g b ! (idx + 2) = b"
  using assms by (simp_all add: write_rgb_def)

lemma pix_idx_in_buffer:
  assumes "0 \<le> x" "x < width" "0 \<le> y" "y < height" "int (length buf) = 4 * width * height"
  shows "pix_idx width x y + 2 < length buf"
proof -
  have "y * width + x < height * width"
  proof -
    have "y * width + x < y * width + width" using assms(2) by simp
    also have "\<dots> = (y + 1) * width" by (simp add: algebra_simps)
    also have "\<dots> \<le> height * width"
      using assms(1,2,4) by (intro mult_right_mono) auto
    finally show ?thesis .
  qed
  then have "(y * width + x) * 4 + 2 < 4 * width * height" by (simp add: algebra_simps)
  then show ?thesis
    using assms(1,3,5) pix_idx_eq [of x y width] assms(2) by linarith
qed

lemma touch_at_pixel:
  assumes "0 \<le> px" "px < width" "0 \<le> py" "py < height"
  shows "touch width height (at_pixel px py) =
           {pix_idx width px py, pix_idx width px py + 1, pix_idx width px py + 2}"
proof (rule equalityI; rule subsetI)
  fix i assume "i \<in> touch width height (at_pixel px py)"
  then obtain c where c: "c < 3" "i = pix_idx width px py + c"
    unfolding touch_def at_pixel_def by blast
  then have "c = 0 \<or> c = 1 \<or> c = 2" by linarith
  then show "i \<in> {pix_idx width px py, pix_idx width px py + 1, pix_idx width px py + 2}"
    using c(2) by fastforce
next
  fix i assume "i \<in> {pix_idx width px py, pix_idx width px py + 1, pix_idx width px py + 2}"
  then show "i \<in> touch width height (at_pixel px py)"
    using touch_pix [OF assms, of "at_pixel px py"] by (auto simp: at_pixel_def)
qed

lemma at_pixel_same:
  assumes "0 \<le> px" "px < width" "0 \<le> py" "py < height"
    and "same_outside (- touch width height (at_pixel px py)) a b"
  shows "length a = length b"
    and "a ! pix_idx width px py = b ! pix_idx width px py"
    and "a ! (pix_idx width px py + 1) = b ! (pix_idx width px py + 1)"
    and "a ! (pix_idx width px py + 2) = b ! (pix_idx width px py + 2)"
  using assms(5) unfolding touch_at_pixel [OF assms(1-4)] same_outside_def by simp_all

subsection \<open>Feathering\<close>

lemma feather_nearest_default:
  assumes "\<And>dy dx. - featherWidth \<le> dy \<Longrightarrow> dy \<le> featherWidth \<Longrightarrow> - featherWidth \<le> dx \<Longrightarrow>
             dx \<le> featherWidth \<Longrightarrow> 0 \<le> x + dx \<Longrightarrow> x + dx < width \<Longrightarrow> 0 \<le> y + dy \<Longrightarrow>
             y + dy < height \<Longrightarrow> isInsideSelection (x + dx) (y + dy) sel"
  shows "feather_nearest width height sel originalData featherWidth x y =
           (originalData ! pix_idx width x y, originalData ! (pix_idx width x y + 1),
            originalData ! (pix_idx width x y + 2), None)"
  unfolding feather_nearest_def Let_def
proof (rule fold_rect_inv
    [where P = "\<lambda>st. st = (originalData ! pix_idx width x y, originalData ! (pix_idx width x y + 1),
                             originalData ! (pix_idx width x y + 2), None)"])
  fix dy dx :: int and st :: nearest
  assume "dy \<in> set [- featherWidth..featherWidth]" "dx \<in> set [- featherWidth..featherWidth]"
    and st: "st = (originalData ! pix_idx width x y, originalData ! (pix_idx width x y + 1),
                  originalData ! (pix_idx width x y + 2), None)"
  then have "0 \<le> x + dx \<Longrightarrow> x + dx < width \<Longrightarrow> 0 \<le> y + dy \<Longrightarrow> y + dy < height \<Longrightarrow>
      isInsideSelection (x + dx) (y + dy) sel"
    using assms [of dy dx] by simp
  then show "feather_probe width height sel originalData x y dy dx st =
      (originalData ! pix_idx width x y, originalData ! (pix_idx width x y + 1),
       originalData ! (pix_idx width x y + 2), None)"
    unfolding feather_probe_def Let_def st by auto
qed simp

lemma feather_stage_at_pixel:
  assumes img: "0 \<le> x" "x < width" "0 \<le> y" "y < height"
    and ins: "isInsideSelection x y sel"
  shows "\<exists>buf'. same_outside (- touch width height (at_pixel x y)) buf' buf \<and>
           same_outside (- touch width height (at_pixel x y))
             (feather_stage width height sel distMap originalData buf)
             (feather_pixel width height sel distMap originalData y x buf')"
proof -
  let ?ps = "List.product [sel_y sel..sel_y sel + sel_height sel - 1]
               [sel_x sel..sel_x sel + sel_width sel - 1]"
  let ?f = "\<lambda>p. feather_pixel width height sel distMap originalData (fst p) (snd p)"
  have "\<exists>s. True \<and> same_outside (- touch width height (at_pixel x y)) s buf \<and>
          same_outside (- touch width height (at_pixel x y)) (fold ?f ?ps buf) (?f (y, x) s)"
  proof (rule fold_pointwise [where g = "\<lambda>b. b" and P = "\<lambda>_. True"])
    fix q :: "int \<times> int" and s :: "nat list"
    assume "q \<in> set ?ps" and "q \<noteq> (y, x)"
    then have ne: "(snd q, fst q) \<noteq> (x, y)" by auto
    have "same_outside (touch width height (at_pixel (snd q) (fst q))) (?f q s) s"
      by (rule feather_pixel_same) (simp_all add: same_outside_refl at_pixel_def)
    then show "same_outside (- touch width height (at_pixel x y)) (?f q s) s"
      using touch_at_pixel_disjoint [OF ne] by (rule same_outside_mono)
  next
    show "(y, x) \<in> set ?ps" using ins by (auto simp: isInsideSelection_def)
    show "distinct ?ps" by (simp add: distinct_product)
  qed simp_all
  then show ?thesis
    by (simp add: feather_stage_def fold_product)
qed


subsection \<open>Grain\<close>

lemma toUint8Clamp_le: "toUint8Clamp v \<le> 255"
  unfolding toUint8Clamp_def Let_def
  by (auto simp: nat_le_iff)

lemma grain_noise_range:
  assumes "rnd_ok rnd" "0 \<le> g"
  shows "- g \<le> (rnd k - 1 / 2) * g * 2" and "(rnd k - 1 / 2) * g * 2 \<le> g"
proof -
  have r: "0 \<le> rnd k" "rnd k \<le> 1" using assms(1) by (auto simp: rnd_ok_def less_imp_le)
  have e: "(rnd k - 1 / 2) * g * 2 = (2 * rnd k - 1) * g" by (simp add: algebra_simps)
  have "- 1 * g \<le> (2 * rnd k - 1) * g"
    using r assms(2) by (intro mult_right_mono) simp_all
  then show "- g \<le> (rnd k - 1 / 2) * g * 2" unfolding e by simp
  have "(2 * rnd k - 1) * g \<le> 1 * g"
    using r assms(2) by (intro mult_right_mono) simp_all
  then show "(rnd k - 1 / 2) * g * 2 \<le> g" unfolding e by simp
qed

section \<open>The causal order of the layered fill\<close>





section \<open>Feathering, grain and fill at single pixels\<close>

lemma toUint8Clamp_of_int: "toUint8Clamp (real_of_int z) = nat (min 255 (max 0 z))"
  by (simp add: toUint8Clamp_def Let_def)

lemma feather_blend_value:
  "feather_blend cur blend near =
     nat (min 255 (max 0 \<lfloor>real cur * blend + real near * (1 - blend) + 1 / 2\<rfloor>))"
  by (simp add: feather_blend_def math_round_def toUint8Clamp_of_int)

text \<open>
  C10. During feathering, for a pixel of the image inside the selection whose distance-field
  value d is below the feather width 4 and whose 9 x 9 search window holds no pixel of the
  image outside the selection, the search leaves the blend target at the pixel's own
  original colour (and \<^verbatim>\<open>minDist\<close> at infinity), and the feathered value of each colour
  channel is the synthesized value times d/4 plus the pixel's own original value times
  1 - d/4, rounded to the nearest integer (a half up) and clamped to [0, 255].
\<close>

theorem feather_defaults_to_own_original:
  assumes img: "0 \<le> x" "x < width" "0 \<le> y" "y < height"
    and ins: "isInsideSelection x y sel"
    and len: "int (length buf) = 4 * width * height"
    and band: "edge_dist sel (x - sel_x sel) (y - sel_y sel) < 4"
    and window: "\<forall>dy \<in> {- 4..4}. \<forall>dx \<in> {- 4..4}.
                   0 \<le> x + dx \<and> x + dx < width \<and> 0 \<le> y + dy \<and> y + dy < height \<longrightarrow>
                   isInsideSelection (x + dx) (y + dy) sel"
  shows "feather_nearest width height sel originalData 4 x y =
           (originalData ! pix_idx width x y, originalData ! (pix_idx width x y + 1),
            originalData ! (pix_idx width x y + 2), None) \<and>
         (\<forall>c < 3. feather_stage width height sel (fst (buildDistMap sel)) originalData buf !
                     (pix_idx width x y + c) =
                   nat (min 255 (max 0
                     \<lfloor>real (buf ! (pix_idx width x y + c)) *
                        (real_of_int (edge_dist sel (x - sel_x sel) (y - sel_y sel)) / 4) +
                      real (originalData ! (pix_idx width x y + c)) *
                        (1 - real_of_int (edge_dist sel (x - sel_x sel) (y - sel_y sel)) / 4) +
                      1 / 2\<rfloor>)))"
proof -
  let ?idx = "pix_idx width x y"
  let ?d = "edge_dist sel (x - sel_x sel) (y - sel_y sel)"
  let ?C = "- touch width height (at_pixel x y)"
  have near: "feather_nearest width height sel originalData 4 x y =
      (originalData ! ?idx, originalData ! (?idx + 1), originalData ! (?idx + 2), None)"
    by (rule feather_nearest_default) (use window in auto)
  have dm: "fst (buildDistMap sel) ((y - sel_y sel) * sel_width sel + (x - sel_x sel)) = ?d"
    using ins by (intro buildDistMap_lookup) (auto simp: isInsideSelection_def)
  obtain buf' where b': "same_outside ?C buf' buf"
    and st: "same_outside ?C (feather_stage width height sel (fst (buildDistMap sel)) originalData buf)
               (feather_pixel width height sel (fst (buildDistMap sel)) originalData y x buf')"
    using feather_stage_at_pixel [OF img ins] by blast
  note eq = at_pixel_same [OF img b']
  have inb: "?idx + 2 < length buf'"
    using pix_idx_in_buffer [OF img len] eq(1) by simp
  have px: "feather_pixel width height sel (fst (buildDistMap sel)) originalData y x buf' =
      write_rgb buf' ?idx
        (feather_blend (buf ! ?idx) (real_of_int ?d / 4) (originalData ! ?idx))
        (feather_blend (buf ! (?idx + 1)) (real_of_int ?d / 4) (originalData ! (?idx + 1)))
        (feather_blend (buf ! (?idx + 2)) (real_of_int ?d / 4) (originalData ! (?idx + 2)))"
    using img band eq by (simp add: feather_pixel_def Let_def dm near)
  note out = at_pixel_same [OF img st, unfolded px write_rgb_nth [OF inb]]
  have "feather_stage width height sel (fst (buildDistMap sel)) originalData buf ! (?idx + c) =
      feather_blend (buf ! (?idx + c)) (real_of_int ?d / 4) (originalData ! (?idx + c))"
    if "c < 3" for c
  proof -
    from that have "c = 0 \<or> c = 1 \<or> c = 2" by linarith
    then show ?thesis using out(2-4) by auto
  qed
  then show ?thesis using near unfolding feather_blend_value by blast
qed

theorem feather_defaults_to_own_original_witness:
  "feather_stage 10 10 ex_tall_selection (fst (buildDistMap ex_tall_selection))
     (replicate 400 7) (replicate 400 50) ! (pix_idx 10 1 1 + 0) = 18 \<and>
   feather_nearest 10 10 ex_tall_selection (replicate 400 7) 4 1 1 = (7, 7, 7, None)"
proof -
  have w: "\<forall>dy \<in> {- 4..4}. \<forall>dx \<in> {- 4..4}.
      0 \<le> 1 + dx \<and> 1 + dx < 10 \<and> 0 \<le> 1 + dy \<and> 1 + dy < 10 \<longrightarrow>
      isInsideSelection (1 + dx) (1 + dy) ex_tall_selection"
    by (simp add: isInsideSelection_def ex_tall_selection_def)
  have d: "edge_dist ex_tall_selection (1 - sel_x ex_tall_selection) (1 - sel_y ex_tall_selection) = 1"
    by (simp add: edge_dist_def ex_tall_selection_def)
  note t = feather_defaults_to_own_original [of 1 10 1 10 ex_tall_selection "replicate 400 50"
      "replicate 400 7", OF _ _ _ _ _ _ _ w, unfolded d]
  have t': "feather_nearest 10 10 ex_tall_selection (replicate 400 7) 4 1 1 =
      (replicate 400 7 ! pix_idx 10 1 1, replicate 400 7 ! (pix_idx 10 1 1 + 1),
       replicate 400 7 ! (pix_idx 10 1 1 + 2), None) \<and>
     (\<forall>c < 3. feather_stage 10 10 ex_tall_selection (fst (buildDistMap ex_tall_selection))
                 (replicate 400 7) (replicate 400 50) ! (pix_idx 10 1 1 + c) =
               nat (min 255 (max 0
                 \<lfloor>real (replicate 400 50 ! (pix_idx 10 1 1 + c)) * (real_of_int 1 / 4) +
                  real (replicate 400 7 ! (pix_idx 10 1 1 + c)) * (1 - real_of_int 1 / 4) + 1 / 2\<rfloor>)))"
    by (rule t) (simp_all add: isInsideSelection_def ex_tall_selection_def)
  from t' [THEN conjunct2, rule_format, of 0] t' [THEN conjunct1]
  show ?thesis by (simp add: pix_idx_def)
qed


subsection \<open>Grain: one draw per pixel, in scan order\<close>

lemma fold_pointwise_at:
  fixes f :: "'p \<Rightarrow> 's \<Rightarrow> 's" and g :: "'s \<Rightarrow> nat list"
  assumes frame: "\<And>q s. q \<in> set ps \<Longrightarrow> q \<noteq> p \<Longrightarrow> same_outside (- C) (g (f q s)) (g s)"
    and ps: "ps = pre @ p # post" and dist: "distinct ps"
  shows "same_outside (- C) (g (fold f pre s0)) (g s0)"
    and "same_outside (- C) (g (fold f ps s0)) (g (f p (fold f pre s0)))"
proof -
  have notin: "p \<notin> set pre" "p \<notin> set post"
    using dist ps by auto
  have keep: "same_outside (- C) (g (fold f qs t)) (g t)" if "set qs \<subseteq> set ps" "p \<notin> set qs" for qs t
  proof (rule fold_inv [where P = "\<lambda>s. same_outside (- C) (g s) (g t)"])
    show "same_outside (- C) (g t) (g t)" by (rule same_outside_refl)
  next
    fix q s assume "q \<in> set qs" and "same_outside (- C) (g s) (g t)"
    then show "same_outside (- C) (g (f q s)) (g t)"
      using frame [of q s] that by (auto intro: same_outside_trans)
  qed
  show "same_outside (- C) (g (fold f pre s0)) (g s0)"
    by (rule keep) (use ps notin in auto)
  have "same_outside (- C) (g (fold f post (f p (fold f pre s0)))) (g (f p (fold f pre s0)))"
    by (rule keep) (use ps notin in auto)
  then show "same_outside (- C) (g (fold f ps s0)) (g (f p (fold f pre s0)))"
    by (simp add: ps)
qed

lemma grain_counter:
  "snd (fold (\<lambda>p. grain_pixel width height grainStrength rnd (fst p) (snd p)) qs (buf, n)) =
     n + length (filter (in_image width height) qs)"
proof (induction qs arbitrary: buf n)
  case Nil
  then show ?case by simp
next
  case (Cons q qs)
  show ?case
  proof (cases "in_image width height q")
    case True
    then have "grain_pixel width height grainStrength rnd (fst q) (snd q) (buf, n) =
        (fst (grain_pixel width height grainStrength rnd (fst q) (snd q) (buf, n)), Suc n)"
      by (auto simp: grain_pixel_def in_image_def Let_def)
    then show ?thesis using True Cons.IH [of _ "Suc n"] by (simp del: prod.collapse) (metis add_Suc_shift)
  next
    case False
    then have "grain_pixel width height grainStrength rnd (fst q) (snd q) (buf, n) = (buf, n)"
      by (auto simp: grain_pixel_def in_image_def)
    then show ?thesis using False Cons.IH [of buf n] by simp
  qed
qed

lemma grain_stage_at_scan:
  assumes scan: "List.product [sel_y sel..sel_y sel + sel_height sel - 1]
                   [sel_x sel..sel_x sel + sel_width sel - 1] = pre @ (y, x) # post"
    and img: "0 \<le> x" "x < width" "0 \<le> y" "y < height"
    and len: "int (length buf) = 4 * width * height"
  shows "snd (grain_stage width height sel grainStrength rnd (buf, n)) =
           n + length (filter (in_image width height) (pre @ (y, x) # post))"
    and "c < 3 \<Longrightarrow>
         fst (grain_stage width height sel grainStrength rnd (buf, n)) ! (pix_idx width x y + c) =
         grain_channel (buf ! (pix_idx width x y + c))
           ((rnd (n + length (filter (in_image width height) pre)) - 1 / 2) * grainStrength * 2)"
proof -
  let ?idx = "pix_idx width x y"
  let ?C = "- touch width height (at_pixel x y)"
  let ?ps = "List.product [sel_y sel..sel_y sel + sel_height sel - 1]
               [sel_x sel..sel_x sel + sel_width sel - 1]"
  let ?f = "\<lambda>p. grain_pixel width height grainStrength rnd (fst p) (snd p)"
  let ?k = "n + length (filter (in_image width height) pre)"
  have stage: "grain_stage width height sel grainStrength rnd (buf, n) = fold ?f ?ps (buf, n)"
    by (simp add: grain_stage_def fold_product)
  show "snd (grain_stage width height sel grainStrength rnd (buf, n)) =
      n + length (filter (in_image width height) (pre @ (y, x) # post))"
    unfolding stage grain_counter scan ..
  have frame: "same_outside ?C (fst (?f q s)) (fst s)" if "q \<noteq> (y, x)" for q s
  proof -
    have ne: "(snd q, fst q) \<noteq> (x, y)" using that by auto
    have "same_outside (touch width height (at_pixel (snd q) (fst q))) (fst (?f q s)) (fst s)"
      by (rule grain_pixel_same) (simp_all add: same_outside_refl at_pixel_def)
    then show ?thesis
      using touch_at_pixel_disjoint [OF ne] by (rule same_outside_mono)
  qed
  have dist: "distinct ?ps" by (simp add: distinct_product)
  obtain buf' where pre: "fold ?f pre (buf, n) = (buf', ?k)"
    using grain_counter [of width height grainStrength rnd pre buf n]
    by (metis prod.collapse)
  have b': "same_outside ?C buf' buf"
    using fold_pointwise_at(1) [where f = ?f and g = fst and ps = ?ps and p = "(y, x)" and C = "touch width height (at_pixel x y)"
        and pre = pre and post = post and ?s0.0 = "(buf, n)", OF frame scan dist]
    by (simp add: pre)
  have st: "same_outside ?C (fst (grain_stage width height sel grainStrength rnd (buf, n)))
      (fst (grain_pixel width height grainStrength rnd y x (buf', ?k)))"
    using fold_pointwise_at(2) [where f = ?f and g = fst and ps = ?ps and p = "(y, x)" and C = "touch width height (at_pixel x y)"
        and pre = pre and post = post and ?s0.0 = "(buf, n)", OF frame scan dist]
    by (simp add: pre stage)
  note eq = at_pixel_same [OF img b']
  have inb: "?idx + 2 < length buf'"
    using pix_idx_in_buffer [OF img len] eq(1) by simp
  let ?noise = "(rnd ?k - 1 / 2) * grainStrength * 2"
  have px: "fst (grain_pixel width height grainStrength rnd y x (buf', ?k)) =
      write_rgb buf' ?idx (grain_channel (buf ! ?idx) ?noise)
        (grain_channel (buf ! (?idx + 1)) ?noise) (grain_channel (buf ! (?idx + 2)) ?noise)"
    using img eq by (simp add: grain_pixel_def Let_def)
  note out = at_pixel_same [OF img st, unfolded px write_rgb_nth [OF inb]]
  show "fst (grain_stage width height sel grainStrength rnd (buf, n)) ! (?idx + c) =
      grain_channel (buf ! (?idx + c)) ?noise" if "c < 3"
  proof -
    from that have "c = 0 \<or> c = 1 \<or> c = 2" by linarith
    then show ?thesis using out(2-4) by auto
  qed
qed

lemma toUint8Clamp_nearest:
  assumes "0 \<le> r" "r \<le> 255"
  shows "\<bar>real (toUint8Clamp r) - r\<bar> \<le> 1 / 2"
proof -
  have f: "0 \<le> \<lfloor>r\<rfloor>" using assms(1) by simp
  have "real_of_int \<lfloor>r\<rfloor> \<le> r" "r < real_of_int \<lfloor>r\<rfloor> + 1" by linarith+
  then show ?thesis
    using assms f unfolding toUint8Clamp_def Let_def
    by (auto simp: abs_le_iff)
qed


lemma inpaint_unfold:
  fixes imageData selection options rnd
  defines "w \<equiv> img_width imageData" and "h \<equiv> img_height imageData"
    and "opts \<equiv> merge_options options"
  defines "sel \<equiv> clampSelection w h selection"
  defines "bank \<equiv> buildTextureBank imageData sel (opt_margin opts)"
  assumes wf: "wf_image imageData"
    and nd: "0 < sel_width sel" "0 < sel_height sel" and ne: "bank \<noteq> []"
    and fill: "fill_stage w h sel (opt_margin opts) (fst (buildDistMap sel)) (snd (buildDistMap sel))
                 (img_data imageData) bank rnd
                 ((prefill w h sel (bank_average bank) (img_data imageData), 0), [20]) =
               Inr ((filled, n), progress)"
    and buf: "buf = feather_stage w h sel (fst (buildDistMap sel)) (img_data imageData)
                      (fst (smooth_stage w h sel (opt_passes opts) (filled, progress @ [75])))"
  shows "inpaintWatermark imageData selection options rnd =
           Inr (\<lparr>img_data = fst (grain_stage w h sel (opt_grainStrength opts) rnd (buf, n)),
                  img_width = w, img_height = h\<rparr>,
                snd (smooth_stage w h sel (opt_passes opts) (filled, progress @ [75])) @ [92, 100])"
    and "length buf = length (img_data imageData)"
proof -
  let ?W = "touch w h (inside sel)"
  let ?res0 = "prefill w h sel (bank_average bank) (img_data imageData)"
  obtain dm md where dm: "buildDistMap sel = (dm, md)"
    by (cases "buildDistMap sel")
  then have dm_eq: "fst (buildDistMap sel) = dm" "snd (buildDistMap sel) = md" by simp_all
  obtain buf2 pr2 where
    smooth: "smooth_stage w h sel (opt_passes opts) (filled, progress @ [75]) = (buf2, pr2)"
    by (metis prod.exhaust)
  obtain buf4 n4 where
    grain: "grain_stage w h sel (opt_grainStrength opts) rnd (buf, n) = (buf4, n4)"
    by (metis prod.exhaust)
  have s0: "same_outside ?W ?res0 (img_data imageData)"
    by (rule prefill_same) (rule same_outside_refl)
  have s1: "same_outside ?W filled (img_data imageData)"
    using fill_stage_same [OF fill] s0 by simp
  have s2: "same_outside ?W buf2 (img_data imageData)"
    using smooth_stage_same [of w h sel "(filled, progress @ [75])" "img_data imageData" "opt_passes opts"]
      s1 smooth by simp
  have s3: "same_outside ?W buf (img_data imageData)"
    unfolding buf smooth fst_conv by (rule feather_stage_same) (rule s2)
  then show len: "length buf = length (img_data imageData)"
    by (simp add: same_outside_def)
  have s4: "same_outside ?W buf4 (img_data imageData)"
    using grain_stage_same [of w h sel "(buf, n)" "img_data imageData" "opt_grainStrength opts" rnd]
      s3 grain by simp
  then have "length buf4 = length (img_data imageData)"
    by (simp add: same_outside_def)
  then have out: "new_ImageData buf4 w h = Inr \<lparr>img_data = buf4, img_width = w, img_height = h\<rparr>"
    using wf by (simp add: new_ImageData_def wf_image_def w_def h_def)
  have feather: "feather_stage w h sel dm (img_data imageData) buf2 = buf"
    unfolding buf smooth fst_conv dm_eq ..
  show "inpaintWatermark imageData selection options rnd =
      Inr (\<lparr>img_data = fst (grain_stage w h sel (opt_grainStrength opts) rnd (buf, n)),
             img_width = w, img_height = h\<rparr>,
           snd (smooth_stage w h sel (opt_passes opts) (filled, progress @ [75])) @ [92, 100])"
    using nd ne fill [unfolded dm_eq] smooth grain out feather
    unfolding inpaintWatermark_def Let_def w_def [symmetric] h_def [symmetric] opts_def [symmetric]
      sel_def [symmetric] bank_def [symmetric]
    by (simp add: dm)
qed

lemma ex_run3:
  "inpaintWatermark ex_image3 ex_thin_selection ex_options3 ex_rnd =
     Inr (\<lparr>img_data = [99, 99, 99, 255, 101, 101, 101, 255, 100, 100, 100, 255],
            img_width = 3, img_height = 1\<rparr>, [20, 75, 92, 100])"
  by (simp add: inpaintWatermark_def ex_image3_def ex_thin_selection_def ex_options3_def ex_rnd_def
      merge_options_def
      clampSelection_def buildTextureBank_def bank_push_def pix_idx_def bank_average_def bank_sum_def
      math_round_def prefill_def prefill_pixel_def write_rgb_def toUint8Clamp_def
      buildDistMap_def distMap_cell_def edge_dist_def fill_stage_def fill_layer_step_def
      fill_layer_def fill_pixel_def fill_sample_def fill_source_def isInsideSelection_def
      random_sample_def smooth_stage_def feather_stage_def feather_pixel_def feather_nearest_def
      feather_probe_def feather_blend_def grain_stage_def grain_pixel_def grain_channel_def
      new_ImageData_def Let_def upto_rec1)

lemma ex_fill3:
  "fill_stage 3 1 \<lparr>sel_x = 0, sel_y = 0, sel_width = 2, sel_height = 1\<rparr> 1
     (fst (buildDistMap \<lparr>sel_x = 0, sel_y = 0, sel_width = 2, sel_height = 1\<rparr>))
     (snd (buildDistMap \<lparr>sel_x = 0, sel_y = 0, sel_width = 2, sel_height = 1\<rparr>))
     [10, 10, 10, 255, 200, 200, 200, 255, 100, 100, 100, 255]
     [\<lparr>ts_r = 100, ts_g = 100, ts_b = 100\<rparr>] ex_rnd
     ((prefill 3 1 \<lparr>sel_x = 0, sel_y = 0, sel_width = 2, sel_height = 1\<rparr>
         (bank_average [\<lparr>ts_r = 100, ts_g = 100, ts_b = 100\<rparr>])
         [10, 10, 10, 255, 200, 200, 200, 255, 100, 100, 100, 255], 0), [20]) =
   Inr (([100, 100, 100, 255, 100, 100, 100, 255, 100, 100, 100, 255], 4), [20])"
  by (simp add: ex_rnd_def pix_idx_def bank_average_def bank_sum_def
      math_round_def prefill_def prefill_pixel_def write_rgb_def toUint8Clamp_def
      buildDistMap_def distMap_cell_def edge_dist_def fill_stage_def fill_layer_step_def
      fill_layer_def fill_pixel_def fill_sample_def fill_source_def isInsideSelection_def
      random_sample_def Let_def upto_rec1)

lemma ex_feather3:
  "feather_stage 3 1 \<lparr>sel_x = 0, sel_y = 0, sel_width = 2, sel_height = 1\<rparr>
     (fst (buildDistMap \<lparr>sel_x = 0, sel_y = 0, sel_width = 2, sel_height = 1\<rparr>))
     [10, 10, 10, 255, 200, 200, 200, 255, 100, 100, 100, 255]
     (fst (smooth_stage 3 1 \<lparr>sel_x = 0, sel_y = 0, sel_width = 2, sel_height = 1\<rparr> 0
        ([100, 100, 100, 255, 100, 100, 100, 255, 100, 100, 100, 255], [20] @ [75]))) =
   [100, 100, 100, 255, 100, 100, 100, 255, 100, 100, 100, 255]"
  by (simp add: pix_idx_def math_round_def write_rgb_def toUint8Clamp_def
      buildDistMap_def distMap_cell_def edge_dist_def isInsideSelection_def
      smooth_stage_def feather_stage_def feather_pixel_def feather_nearest_def
      feather_probe_def feather_blend_def Let_def upto_rec1)


text \<open>
  C7 as stated fails. In the run on the 3 x 1 image with the two-pixel selection, the fill
  leaves every colour channel at 100 and has used four draws; the grain step then moves
  the three channels of pixel (0, 0) by the noise of the one draw 4, to (99, 99, 99), and
  the run returns that. Independent noise per channel at the same state gives
  (99, 101, 100) and uses three draws.
\<close>

theorem grain_shares_noise_across_channels:
  "inpaintWatermark ex_image3 ex_thin_selection ex_options3 ex_rnd =
     Inr (\<lparr>img_data = [99, 99, 99, 255, 101, 101, 101, 255, 100, 100, 100, 255],
            img_width = 3, img_height = 1\<rparr>, [20, 75, 92, 100]) \<and>
   fill_stage 3 1 \<lparr>sel_x = 0, sel_y = 0, sel_width = 2, sel_height = 1\<rparr> 1
     (fst (buildDistMap \<lparr>sel_x = 0, sel_y = 0, sel_width = 2, sel_height = 1\<rparr>))
     (snd (buildDistMap \<lparr>sel_x = 0, sel_y = 0, sel_width = 2, sel_height = 1\<rparr>))
     [10, 10, 10, 255, 200, 200, 200, 255, 100, 100, 100, 255]
     [\<lparr>ts_r = 100, ts_g = 100, ts_b = 100\<rparr>] ex_rnd
     ((prefill 3 1 \<lparr>sel_x = 0, sel_y = 0, sel_width = 2, sel_height = 1\<rparr>
         (bank_average [\<lparr>ts_r = 100, ts_g = 100, ts_b = 100\<rparr>])
         [10, 10, 10, 255, 200, 200, 200, 255, 100, 100, 100, 255], 0), [20]) =
     Inr (([100, 100, 100, 255, 100, 100, 100, 255, 100, 100, 100, 255], 4), [20]) \<and>
   grain_pixel 3 1 2 ex_rnd 0 0 ([100, 100, 100, 255, 100, 100, 100, 255, 100, 100, 100, 255], 4) =
     ([99, 99, 99, 255, 100, 100, 100, 255, 100, 100, 100, 255], 5) \<and>
   grain_pixel_independent 3 1 2 ex_rnd 0 0
     ([100, 100, 100, 255, 100, 100, 100, 255, 100, 100, 100, 255], 4) =
     ([99, 101, 100, 255, 100, 100, 100, 255, 100, 100, 100, 255], 7)"
proof -
  have "grain_pixel 3 1 2 ex_rnd 0 0 ([100, 100, 100, 255, 100, 100, 100, 255, 100, 100, 100, 255], 4) =
      ([99, 99, 99, 255, 100, 100, 100, 255, 100, 100, 100, 255], 5)"
    by (simp add: grain_pixel_def grain_channel_def ex_rnd_def pix_idx_def write_rgb_def
        toUint8Clamp_def Let_def)
  moreover have "grain_pixel_independent 3 1 2 ex_rnd 0 0
      ([100, 100, 100, 255, 100, 100, 100, 255, 100, 100, 100, 255], 4) =
      ([99, 101, 100, 255, 100, 100, 100, 255, 100, 100, 100, 255], 7)"
    by (simp add: grain_pixel_independent_def grain_channel_def ex_rnd_def pix_idx_def write_rgb_def
        toUint8Clamp_def Let_def)
  ultimately show ?thesis using ex_run3 ex_fill3 by simp
qed

text \<open>
  C7, amended. The grain stage is applied last: with the fill stage ending in buffer
  \<open>filled\<close> and draw counter \<open>n\<close>, the run returns the output of the grain stage on the
  smoothed and feathered buffer \<open>buf\<close> from counter \<open>n\<close>. The stage uses one draw for each
  pixel of the selection inside the image, in scan order: the pixel (x, y), scanned after
  the positions \<open>pre\<close>, gets the noise (r - 1/2) * grainStrength * 2 of the draw numbered n
  plus the count of in-image positions in \<open>pre\<close>; the noise lies in
  [-grainStrength, grainStrength] and is added to each of the pixel's three colour channels,
  each result clamped to [0, 255] and stored as the nearest byte.
\<close>

theorem grain_one_noise_per_pixel:
  fixes imageData selection options rnd
  defines "w \<equiv> img_width imageData" and "h \<equiv> img_height imageData"
    and "opts \<equiv> merge_options options"
  defines "sel \<equiv> clampSelection w h selection"
  defines "bank \<equiv> buildTextureBank imageData sel (opt_margin opts)"
    and "g \<equiv> opt_grainStrength opts"
  assumes wf: "wf_image imageData" and rnd: "rnd_ok rnd" and g: "0 \<le> g"
    and nd: "0 < sel_width sel" "0 < sel_height sel" and ne: "bank \<noteq> []"
    and fill: "fill_stage w h sel (opt_margin opts) (fst (buildDistMap sel)) (snd (buildDistMap sel))
                 (img_data imageData) bank rnd
                 ((prefill w h sel (bank_average bank) (img_data imageData), 0), [20]) =
               Inr ((filled, n), progress)"
    and buf: "buf = feather_stage w h sel (fst (buildDistMap sel)) (img_data imageData)
                      (fst (smooth_stage w h sel (opt_passes opts) (filled, progress @ [75])))"
    and scan: "List.product [sel_y sel..sel_y sel + sel_height sel - 1]
                 [sel_x sel..sel_x sel + sel_width sel - 1] = pre @ (y, x) # post"
    and img: "0 \<le> x" "x < w" "0 \<le> y" "y < h"
    and noise: "noise = (rnd (n + length (filter (in_image w h) pre)) - 1 / 2) * g * 2"
  shows "inpaintWatermark imageData selection options rnd =
           Inr (\<lparr>img_data = fst (grain_stage w h sel g rnd (buf, n)), img_width = w, img_height = h\<rparr>,
                snd (smooth_stage w h sel (opt_passes opts) (filled, progress @ [75])) @ [92, 100]) \<and>
         snd (grain_stage w h sel g rnd (buf, n)) =
           n + length (filter (in_image w h) (pre @ (y, x) # post)) \<and>
         - g \<le> noise \<and> noise \<le> g \<and>
         (\<forall>c < 3.
            fst (grain_stage w h sel g rnd (buf, n)) ! (pix_idx w x y + c) =
              toUint8Clamp (max 0 (min 255 (real (buf ! (pix_idx w x y + c)) + noise))) \<and>
            fst (grain_stage w h sel g rnd (buf, n)) ! (pix_idx w x y + c) \<le> 255 \<and>
            \<bar>real (fst (grain_stage w h sel g rnd (buf, n)) ! (pix_idx w x y + c)) -
               max 0 (min 255 (real (buf ! (pix_idx w x y + c)) + noise))\<bar> \<le> 1 / 2)"
proof -
  note unf = inpaint_unfold [OF wf nd [unfolded sel_def w_def h_def]
      ne [unfolded bank_def sel_def w_def h_def opts_def]
      fill [unfolded bank_def sel_def w_def h_def opts_def]
      buf [unfolded sel_def w_def h_def opts_def]]
  have len: "int (length buf) = 4 * w * h"
    using unf(2) wf by (simp add: wf_image_def w_def h_def)
  note st = grain_stage_at_scan [where grainStrength = g and rnd = rnd and n = n, OF scan img len]
  have px: "fst (grain_stage w h sel g rnd (buf, n)) ! (pix_idx w x y + c) =
      toUint8Clamp (max 0 (min 255 (real (buf ! (pix_idx w x y + c)) + noise)))" if "c < 3" for c
    using st(2) [OF that] by (simp add: grain_channel_def noise)
  have near: "\<bar>real (toUint8Clamp (max 0 (min 255 v))) - max 0 (min 255 v)\<bar> \<le> 1 / 2" for v
    by (rule toUint8Clamp_nearest) simp_all
  have "inpaintWatermark imageData selection options rnd =
      Inr (\<lparr>img_data = fst (grain_stage w h sel g rnd (buf, n)), img_width = w, img_height = h\<rparr>,
           snd (smooth_stage w h sel (opt_passes opts) (filled, progress @ [75])) @ [92, 100])"
    using unf(1) by (simp add: w_def h_def sel_def opts_def g_def)
  then show ?thesis
    using st(1) px near grain_noise_range [OF rnd g] toUint8Clamp_le
    by (simp add: noise)
qed

theorem grain_one_noise_per_pixel_witness:
  "inpaintWatermark ex_image3 ex_thin_selection ex_options3 ex_rnd =
     Inr (\<lparr>img_data =
              fst (grain_stage 3 1 \<lparr>sel_x = 0, sel_y = 0, sel_width = 2, sel_height = 1\<rparr> 2 ex_rnd
                     ([100, 100, 100, 255, 100, 100, 100, 255, 100, 100, 100, 255], 4)),
            img_width = 3, img_height = 1\<rparr>, [20, 75, 92, 100]) \<and>
   snd (grain_stage 3 1 \<lparr>sel_x = 0, sel_y = 0, sel_width = 2, sel_height = 1\<rparr> 2 ex_rnd
          ([100, 100, 100, 255, 100, 100, 100, 255, 100, 100, 100, 255], 4)) = 6 \<and>
   fst (grain_stage 3 1 \<lparr>sel_x = 0, sel_y = 0, sel_width = 2, sel_height = 1\<rparr> 2 ex_rnd
          ([100, 100, 100, 255, 100, 100, 100, 255, 100, 100, 100, 255], 4)) ! (pix_idx 3 1 0 + 0) = 101"
proof -
  let ?sel = "\<lparr>sel_x = 0, sel_y = 0, sel_width = 2, sel_height = 1\<rparr>"
  let ?buf = "[100, 100, 100, 255, 100, 100, 100, 255, 100, 100, 100, 255] :: nat list"
  have c: "clampSelection (img_width ex_image3) (img_height ex_image3) ex_thin_selection = ?sel"
    by (simp add: clampSelection_def ex_image3_def ex_thin_selection_def)
  have o: "opt_margin (merge_options ex_options3) = 1" "opt_passes (merge_options ex_options3) = 0"
    "opt_grainStrength (merge_options ex_options3) = 2"
    by (simp_all add: merge_options_def ex_options3_def)
  have i: "img_width ex_image3 = 3" "img_height ex_image3 = 1"
    "img_data ex_image3 = [10, 10, 10, 255, 200, 200, 200, 255, 100, 100, 100, 255]"
    by (simp_all add: ex_image3_def)
  have b: "buildTextureBank ex_image3 ?sel 1 = [\<lparr>ts_r = 100, ts_g = 100, ts_b = 100\<rparr>]"
    by (simp add: buildTextureBank_def bank_push_def pix_idx_def ex_image3_def Let_def upto_rec1)
  have scan: "List.product [sel_y ?sel..sel_y ?sel + sel_height ?sel - 1]
      [sel_x ?sel..sel_x ?sel + sel_width ?sel - 1] = [(0, 0)] @ (0, 1) # []"
    by (simp add: upto_rec1)
  have h: "wf_image ex_image3" "rnd_ok ex_rnd" "0 \<le> (2 :: real)"
    "0 < sel_width ?sel" "0 < sel_height ?sel" "[\<lparr>ts_r = 100, ts_g = 100, ts_b = 100\<rparr>] \<noteq> []"
    by (simp_all add: wf_image_def ex_image3_def rnd_ok_def ex_rnd_def)
  have p: "(0 :: int) \<le> 1" "(1 :: int) < 3" "(0 :: int) \<le> 0" "(0 :: int) < 1"
    "(1 :: real) = (ex_rnd (4 + length (filter (in_image 3 1) [(0, 0)])) - 1 / 2) * 2 * 2"
    by (simp_all add: ex_rnd_def in_image_def)
  note t = grain_one_noise_per_pixel [of ex_image3 ex_rnd ex_options3 ex_thin_selection ?buf 4 "[20]"
      ?buf "[(0, 0)]" 0 1 "[]" 1, unfolded c, unfolded o, unfolded b, unfolded i,
      OF h ex_fill3 ex_feather3 [symmetric] scan p]
  have run: "inpaintWatermark ex_image3 ex_thin_selection ex_options3 ex_rnd =
      Inr (\<lparr>img_data = fst (grain_stage 3 1 ?sel 2 ex_rnd (?buf, 4)), img_width = 3, img_height = 1\<rparr>,
           [20, 75, 92, 100])"
    using t [THEN conjunct1] by (simp add: smooth_stage_def)
  have cnt: "snd (grain_stage 3 1 ?sel 2 ex_rnd (?buf, 4)) = 6"
    using t [THEN conjunct2, THEN conjunct1] by (simp add: in_image_def)
  have "fst (grain_stage 3 1 ?sel 2 ex_rnd (?buf, 4)) ! (pix_idx 3 1 0 + 0) =
      toUint8Clamp (max 0 (min 255 (real (?buf ! (pix_idx 3 1 0 + 0)) + 1)))"
    by (rule t [THEN conjunct2, THEN conjunct2, THEN conjunct2, THEN conjunct2, rule_format, of 0,
          THEN conjunct1]) simp
  then have "fst (grain_stage 3 1 ?sel 2 ex_rnd (?buf, 4)) ! (pix_idx 3 1 0 + 0) = 101"
    by (simp add: pix_idx_def toUint8Clamp_def)
  then show ?thesis
    using run cnt by simp
qed


subsection \<open>The fill of one pixel at its layer\<close>















end
